theory Spec2Isabelle
  imports Complex_Main "HOL-Library.Sublist"
begin

section \<open>JavaScript values\<close>

text \<open>
  The backend is JavaScript (\<^verbatim>\<open>src/server.js\<close>, \<^verbatim>\<open>src/database.js\<close>). A number
  that arrives in a JSON body is modelled as an exact rational: the rounding of IEEE doubles
  and overflow to Infinity are not modelled. The result of a division is a \<open>jsnum\<close>, so that
  a division by zero is a value of the model (\<open>NaN\<close> for \<open>0/0\<close>, an infinity otherwise), as
  it is in JavaScript.
\<close>

datatype jsnum = Num rat | NaN | PosInf | NegInf

definition js_div :: "rat \<Rightarrow> rat \<Rightarrow> jsnum" where
  "js_div a b =
     (if b = 0 then (if a = 0 then NaN else if 0 < a then PosInf else NegInf)
      else Num (a / b))"

fun js_mul :: "jsnum \<Rightarrow> rat \<Rightarrow> jsnum" where
  "js_mul (Num a) b = Num (a * b)"
| "js_mul NaN b = NaN"
| "js_mul PosInf b = (if 0 < b then PosInf else if b < 0 then NegInf else NaN)"
| "js_mul NegInf b = (if 0 < b then NegInf else if b < 0 then PosInf else NaN)"

text \<open>\<^verbatim>\<open>x >= c\<close> for a finite constant \<open>c\<close>: every comparison with NaN is false.\<close>

fun js_ge :: "jsnum \<Rightarrow> rat \<Rightarrow> bool" where
  "js_ge (Num a) c = (c \<le> a)"
| "js_ge NaN c = False"
| "js_ge PosInf c = True"
| "js_ge NegInf c = False"

text \<open>\<^verbatim>\<open>Math.round\<close>: the nearest integer, a tie going up.\<close>

fun Math_round :: "jsnum \<Rightarrow> jsnum" where
  "Math_round (Num a) = Num (of_int \<lfloor>a + 1 / 2\<rfloor>)"
| "Math_round NaN = NaN"
| "Math_round PosInf = PosInf"
| "Math_round NegInf = NegInf"

text \<open>A field of a JSON body whose type the code tests with \<^verbatim>\<open>typeof\<close>.\<close>

datatype jsval = JUndefined | JNull | JBool bool | JNumber rat | JString string

subsection \<open>Strings\<close>

text \<open>
  Strings are ASCII strings: \<^verbatim>\<open>toLowerCase\<close> maps \<open>A\<close>..\<open>Z\<close> to \<open>a\<close>..\<open>z\<close>, and \<^verbatim>\<open>trim\<close>
  removes tab, line feed, vertical tab, form feed, carriage return and space from both ends.
\<close>

definition toLowerChar :: "char \<Rightarrow> char" where
  "toLowerChar c =
     (case map_of (zip ''ABCDEFGHIJKLMNOPQRSTUVWXYZ'' ''abcdefghijklmnopqrstuvwxyz'') c of
        None \<Rightarrow> c
      | Some d \<Rightarrow> d)"

definition toLowerCase :: "string \<Rightarrow> string" where
  "toLowerCase s = map toLowerChar s"

definition isWhiteSpace :: "char \<Rightarrow> bool" where
  "isWhiteSpace c = (c \<in> set [CHR 0x09, CHR 0x0A, CHR 0x0B, CHR 0x0C, CHR 0x0D, CHR 0x20])"

definition trim :: "string \<Rightarrow> string" where
  "trim s = rev (dropWhile isWhiteSpace (rev (dropWhile isWhiteSpace s)))"

text \<open>\<^verbatim>\<open>s.startsWith(p)\<close> is \<open>prefix p s\<close>; \<^verbatim>\<open>s.includes(p)\<close> is \<open>str_includes s p\<close>.\<close>

fun str_includes :: "string \<Rightarrow> string \<Rightarrow> bool" where
  "str_includes [] p = (p = [])"
| "str_includes (c # cs) p = (prefix p (c # cs) \<or> str_includes cs p)"

text \<open>A string in a boolean position: \<^verbatim>\<open>undefined\<close> and the empty string are falsy.\<close>

fun truthy :: "string option \<Rightarrow> bool" where
  "truthy None = False"
| "truthy (Some s) = (s \<noteq> [])"

definition isHexDigit :: "char \<Rightarrow> bool" where
  "isHexDigit c = (c \<in> set ''0123456789abcdefABCDEF'')"

text \<open>The regular expression \<^verbatim>\<open>/^0x[a-fA-F0-9]{40}$/\<close>.\<close>

fun isValidWalletAddress :: "string \<Rightarrow> bool" where
  "isValidWalletAddress (c0 # c1 # hex) =
     (c0 = CHR ''0'' \<and> c1 = CHR ''x'' \<and> length hex = 40 \<and> list_all isHexDigit hex)"
| "isValidWalletAddress _ = False"

definition isValidIPFSUrl :: "string option \<Rightarrow> bool" where
  "isValidIPFSUrl url =
     (case url of
        None \<Rightarrow> True
      | Some u \<Rightarrow>
          if u = [] then True
          else prefix ''ipfs://'' u \<or> prefix ''https://ipfs.io/ipfs/'' u \<or>
               prefix ''https://gateway.pinata.cloud/ipfs/'' u \<or> str_includes u ''ipfs'')"

definition validDifficulties :: "string list" where
  "validDifficulties =
     [''easy'', ''medium'', ''hard'', ''beginner'', ''intermediate'', ''advanced'']"

section \<open>The store (\<^verbatim>\<open>src/database.js\<close>, the MongoDB revision)\<close>

text \<open>
  The two collections, in insertion order. \<open>now\<close> is the clock reading \<^verbatim>\<open>new Date()\<close> of
  the request. The driver-generated \<^verbatim>\<open>_id\<close> is left out.
\<close>

record user =
  walletAddress :: string
  username :: string
  profilePictureUrl :: "string option"
  totalScore :: rat
  level :: string
  createdAt :: nat
  updatedAt :: nat

record scoreDoc =
  sc_walletAddress :: string
  quizId :: string
  score :: rat
  difficulty :: string
  maxScore :: rat
  percentage :: jsnum
  sc_createdAt :: nat

record database =
  users :: "user list"
  scores :: "scoreDoc list"

definition emptyDb :: database where
  "emptyDb = \<lparr>users = [], scores = []\<rparr>"

text \<open>A thrown error: the driver's \<^verbatim>\<open>code\<close> (11000 for a duplicate key) and the message.\<close>

datatype exn = Exn (err_code: "nat option") (err_message: string)

text \<open>
  \<^verbatim>\<open>insertOne\<close> under the unique indexes that \<^verbatim>\<open>createIndexes\<close> declares:
  \<^verbatim>\<open>wallet_address_unique\<close> on users, \<^verbatim>\<open>wallet_quiz_unique\<close> on scores.
\<close>

definition users_insertOne :: "database \<Rightarrow> user \<Rightarrow> exn + database" where
  "users_insertOne db u =
     (if walletAddress u \<in> set (map walletAddress (users db))
      then Inl (Exn (Some 11000) ''E11000 duplicate key error collection: users'')
      else Inr (db\<lparr>users := users db @ [u]\<rparr>))"

definition scoreKey :: "scoreDoc \<Rightarrow> string \<times> string" where
  "scoreKey d = (sc_walletAddress d, quizId d)"

definition scores_insertOne :: "database \<Rightarrow> scoreDoc \<Rightarrow> exn + database" where
  "scores_insertOne db d =
     (if scoreKey d \<in> set (map scoreKey (scores db))
      then Inl (Exn (Some 11000) ''E11000 duplicate key error collection: scores'')
      else Inr (db\<lparr>scores := scores db @ [d]\<rparr>))"

text \<open>\<^verbatim>\<open>findOneAndUpdate\<close>: the first matching document is updated and returned, or null.\<close>

fun findOneAndUpdate :: "(user \<Rightarrow> bool) \<Rightarrow> (user \<Rightarrow> user) \<Rightarrow> user list \<Rightarrow> user list \<times> user option" where
  "findOneAndUpdate P f [] = ([], None)"
| "findOneAndUpdate P f (u # us) =
     (if P u then (f u # us, Some (f u))
      else (case findOneAndUpdate P f us of (us', r) \<Rightarrow> (u # us', r)))"

definition createUser ::
  "nat \<Rightarrow> database \<Rightarrow> string \<Rightarrow> string \<Rightarrow> string option \<Rightarrow> database \<times> (exn + user)" where
  "createUser now db w name pic =
     (let u = \<lparr>walletAddress = trim (toLowerCase w),
               username = trim name,
               profilePictureUrl = (if truthy pic then map_option trim pic else None),
               totalScore = 0,
               level = ''beginner'',
               createdAt = now,
               updatedAt = now\<rparr>;
          attempt =
            (if \<not> isValidWalletAddress (walletAddress u)
             then Inl (Exn None ''INVALID_WALLET_FORMAT'')
             else if length (username u) < 3 \<or> 30 < length (username u)
             then Inl (Exn None ''INVALID_USERNAME_LENGTH'')
             else users_insertOne db u)
      in case attempt of
           Inr db' \<Rightarrow> (db', Inr u)
         | Inl e \<Rightarrow>
             (db, Inl (if err_code e = Some 11000 then Exn None ''USER_ALREADY_EXISTS''
                       else if prefix ''INVALID_'' (err_message e) then e
                       else Exn None ''DATABASE_CREATE_ERROR'')))"

definition getUserByWallet :: "database \<Rightarrow> string \<Rightarrow> user option" where
  "getUserByWallet db w = find (\<lambda>u. walletAddress u = trim (toLowerCase w)) (users db)"

text \<open>
  \<open>updateUser\<close>: \<open>name\<close> and \<open>pic\<close> are the fields of \<^verbatim>\<open>updateData\<close> (\<open>None\<close> when the
  field is undefined).
\<close>

definition updateUser ::
  "nat \<Rightarrow> database \<Rightarrow> string \<Rightarrow> string option \<Rightarrow> string option \<Rightarrow> database \<times> (exn + user option)" where
  "updateUser now db w name pic =
     (if truthy name \<and> (length (trim (the name)) < 3 \<or> 30 < length (trim (the name)))
      then (db, Inl (Exn None ''INVALID_USERNAME_LENGTH''))
      else
        (case findOneAndUpdate (\<lambda>u. walletAddress u = trim (toLowerCase w))
                (\<lambda>u. u\<lparr>username := (if truthy name then trim (the name) else username u),
                        profilePictureUrl :=
                          (case pic of
                             None \<Rightarrow> profilePictureUrl u
                           | Some p \<Rightarrow> if p \<noteq> [] then Some (trim p) else None),
                        updatedAt := now\<rparr>)
                (users db) of
           (us', r) \<Rightarrow> (db\<lparr>users := us'\<rparr>, Inr r)))"

definition createScore ::
  "nat \<Rightarrow> database \<Rightarrow> string \<Rightarrow> string \<Rightarrow> rat \<Rightarrow> string \<Rightarrow> rat \<Rightarrow> database \<times> (exn + scoreDoc)" where
  "createScore now db w q s d m =
     (let doc = \<lparr>sc_walletAddress = toLowerCase w,
                 quizId = q,
                 score = s,
                 difficulty = d,
                 maxScore = (if m = 0 then 20 else m),
                 percentage = js_mul (js_div s (if m = 0 then 20 else m)) 100,
                 sc_createdAt = now\<rparr>
      in case scores_insertOne db doc of
           Inr db' \<Rightarrow> (db', Inr doc)
         | Inl e \<Rightarrow>
             (db, Inl (if err_code e = Some 11000
                       then Exn None ''Quiz already completed by this user'' else e)))"

definition updateUserTotalScore :: "nat \<Rightarrow> database \<Rightarrow> string \<Rightarrow> rat \<Rightarrow> database \<times> user option" where
  "updateUserTotalScore now db w scoreToAdd =
     (case findOneAndUpdate (\<lambda>u. walletAddress u = toLowerCase w)
             (\<lambda>u. u\<lparr>totalScore := totalScore u + scoreToAdd, updatedAt := now\<rparr>)
             (users db) of
        (us', r) \<Rightarrow> (db\<lparr>users := us'\<rparr>, r))"


section \<open>The request handlers (\<^verbatim>\<open>src/server.js\<close>, the MongoDB revision)\<close>

datatype reason =
    RequiredFieldsMissing
  | InvalidWalletAddressFormat
  | InvalidProfilePictureUrl
  | UsernameLength
  | ScoreNotInRange
  | InvalidDifficulty

text \<open>The response: its HTTP status and, on success, the \<^verbatim>\<open>data\<close> of the body.\<close>

datatype 'a response =
    Ok200 'a
  | Created201 'a
  | BadRequest400 reason
  | NotFound404
  | Conflict409
  | InternalError500

subsection \<open>\<^verbatim>\<open>POST /api/users\<close>\<close>

text \<open>
  The \<^verbatim>\<open>catch\<close> of both POST handlers answers 409 when the message of the error has the
  given substring and 500 otherwise.
\<close>

definition catchResponse :: "string \<Rightarrow> exn \<Rightarrow> 'a response" where
  "catchResponse marker e =
     (if str_includes (err_message e) marker then Conflict409 else InternalError500)"

definition postUsers ::
  "nat \<Rightarrow> database \<Rightarrow> string option \<Rightarrow> string option \<Rightarrow> string option
     \<Rightarrow> database \<times> user response" where
  "postUsers now db walletAddressField usernameField pic =
     (case (walletAddressField, usernameField) of
        (Some w, Some name) \<Rightarrow>
          if w = [] \<or> name = [] then (db, BadRequest400 RequiredFieldsMissing)
          else if \<not> isValidWalletAddress w then (db, BadRequest400 InvalidWalletAddressFormat)
          else if truthy pic \<and> \<not> isValidIPFSUrl pic
          then (db, BadRequest400 InvalidProfilePictureUrl)
          else if length name < 3 \<or> 30 < length name then (db, BadRequest400 UsernameLength)
          else
            (case getUserByWallet db w of
               Some existingUser \<Rightarrow>
                 (case updateUser now db w (Some name) (if truthy pic then pic else None) of
                    (db1, Inl e) \<Rightarrow> (db1, catchResponse ''already exists'' e)
                  | (db1, Inr None) \<Rightarrow> (db1, InternalError500)
                  | (db1, Inr (Some updatedUser)) \<Rightarrow> (db1, Ok200 updatedUser))
             | None \<Rightarrow>
                 (case createUser now db w name pic of
                    (db1, Inl e) \<Rightarrow> (db1, catchResponse ''already exists'' e)
                  | (db1, Inr newUser) \<Rightarrow> (db1, Created201 newUser)))
      | _ \<Rightarrow> (db, BadRequest400 RequiredFieldsMissing))"

subsection \<open>\<^verbatim>\<open>POST /api/scores\<close>\<close>

record scoreResponse =
  rs_score :: rat
  rs_maxScore :: rat
  rs_percentage :: jsnum
  rs_difficulty :: string
  newTotalScore :: rat
  eligibleForReward :: bool
  submittedAt :: nat

text \<open>
  \<open>maxScoreField\<close> is \<open>None\<close> when the body has no \<^verbatim>\<open>maxScore\<close> (the destructuring
  default 20 applies) and a number otherwise.
\<close>

definition postScores ::
  "nat \<Rightarrow> database \<Rightarrow> string option \<Rightarrow> string option \<Rightarrow> jsval \<Rightarrow> string option \<Rightarrow> rat option
     \<Rightarrow> database \<times> scoreResponse response" where
  "postScores now db walletAddressField quizIdField scoreField difficultyField maxScoreField =
     (let maxScoreV = (case maxScoreField of None \<Rightarrow> 20 | Some m \<Rightarrow> m) in
      case (walletAddressField, quizIdField, difficultyField) of
        (Some w, Some q, Some d) \<Rightarrow>
          if w = [] \<or> q = [] \<or> scoreField = JUndefined \<or> d = []
          then (db, BadRequest400 RequiredFieldsMissing)
          else
            (case scoreField of
               JNumber s \<Rightarrow>
                 if s < 0 \<or> maxScoreV < s then (db, BadRequest400 ScoreNotInRange)
                 else if toLowerCase d \<notin> set validDifficulties
                 then (db, BadRequest400 InvalidDifficulty)
                 else
                   (case getUserByWallet db w of
                      None \<Rightarrow> (db, NotFound404)
                    | Some existingUser \<Rightarrow>
                        (case createScore now db w q s (toLowerCase d) maxScoreV of
                           (db1, Inl e) \<Rightarrow> (db1, catchResponse ''already completed'' e)
                         | (db1, Inr newScore) \<Rightarrow>
                             (case updateUserTotalScore now db1 w s of
                                (db2, None) \<Rightarrow> (db2, InternalError500)
                              | (db2, Some updatedUser) \<Rightarrow>
                                  (db2, Created201
                                     \<lparr>rs_score = score newScore,
                                      rs_maxScore = maxScore newScore,
                                      rs_percentage = Math_round (percentage newScore),
                                      rs_difficulty = difficulty newScore,
                                      newTotalScore = totalScore updatedUser,
                                      eligibleForReward = js_ge (percentage newScore) 70,
                                      submittedAt = sc_createdAt newScore\<rparr>))))
             | _ \<Rightarrow> (db, BadRequest400 ScoreNotInRange))
      | _ \<Rightarrow> (db, BadRequest400 RequiredFieldsMissing))"

subsection \<open>\<^verbatim>\<open>GET /api/users/:walletAddress/history\<close>\<close>

text \<open>
  \<^verbatim>\<open>parseInt\<close> of a query parameter (\<open>None\<close> when it is absent): leading white space, a
  sign, the prefix \<^verbatim>\<open>0x\<close> for base 16, then the longest run of digits. The result \<open>None\<close> is
  NaN.
\<close>

definition digitValue :: "char \<Rightarrow> nat option" where
  "digitValue c =
     map_of (zip ''0123456789abcdefABCDEF''
               [0, 1, 2, 3, 4, 5, 6, 7, 8, 9, 10, 11, 12, 13, 14, 15, 10, 11, 12, 13, 14, 15]) c"

definition isDigitOf :: "nat \<Rightarrow> char \<Rightarrow> bool" where
  "isDigitOf radix c = (case digitValue c of None \<Rightarrow> False | Some v \<Rightarrow> v < radix)"

definition digitsValue :: "nat \<Rightarrow> string \<Rightarrow> nat" where
  "digitsValue radix ds = foldl (\<lambda>acc c. acc * radix + the (digitValue c)) 0 ds"

fun stripSign :: "string \<Rightarrow> bool \<times> string" where
  "stripSign (c # cs) =
     (if c = CHR ''-'' then (True, cs) else if c = CHR ''+'' then (False, cs) else (False, c # cs))"
| "stripSign [] = (False, [])"

fun stripRadix :: "string \<Rightarrow> nat \<times> string" where
  "stripRadix (c0 # c1 # cs) =
     (if c0 = CHR ''0'' \<and> (c1 = CHR ''x'' \<or> c1 = CHR ''X'') then (16, cs)
      else (10, c0 # c1 # cs))"
| "stripRadix cs = (10, cs)"

definition parseInt :: "string option \<Rightarrow> int option" where
  "parseInt q =
     (case q of
        None \<Rightarrow> None
      | Some s \<Rightarrow>
          (case stripSign (dropWhile isWhiteSpace s) of
             (negative, s1) \<Rightarrow>
               (case stripRadix s1 of
                  (radix, s2) \<Rightarrow>
                    (let ds = takeWhile (isDigitOf radix) s2 in
                     if ds = [] then None
                     else Some ((if negative then - 1 else 1) * int (digitsValue radix ds))))))"

text \<open>\<^verbatim>\<open>parseInt(q) || d\<close>: NaN and 0 are falsy.\<close>

definition orElse :: "int option \<Rightarrow> int \<Rightarrow> int" where
  "orElse v d = (case v of None \<Rightarrow> d | Some n \<Rightarrow> if n = 0 then d else n)"

record historyData =
  hd_scores :: "scoreDoc list"
  hd_total :: nat
  hd_hasMore :: bool

text \<open>
  The cursor \<^verbatim>\<open>find(...).sort({createdAt: -1}).skip(offset).limit(limit)\<close>. The sort is the
  stable insertion sort on the key, one of the orders the store may give to equal keys. The
  store refuses a negative skip; a limit of 0 is no limit and a negative limit is the limit
  of its absolute value.
\<close>

definition cursorLimit :: "int \<Rightarrow> 'a list \<Rightarrow> 'a list" where
  "cursorLimit n xs = (if n = 0 then xs else take (nat \<bar>n\<bar>) xs)"

definition getUserScoreHistory :: "database \<Rightarrow> string \<Rightarrow> int \<Rightarrow> int \<Rightarrow> exn + historyData" where
  "getUserScoreHistory db w limitV offsetV =
     (if offsetV < 0 then Inl (Exn None ''Operation skip requires a non-negative integer'')
      else
        (let mine = filter (\<lambda>d. sc_walletAddress d = toLowerCase w) (scores db);
             page = cursorLimit limitV (drop (nat offsetV) (sort_key (\<lambda>d. - int (sc_createdAt d)) mine));
             total = length mine
         in Inr \<lparr>hd_scores = page, hd_total = total,
                 hd_hasMore = (offsetV + int (length page) < int total)\<rparr>))"

record historyResponse =
  history :: "scoreDoc list"
  pg_total :: nat
  pg_limit :: int
  pg_offset :: int
  pg_hasMore :: bool

definition historyLimit :: "string option \<Rightarrow> int" where
  "historyLimit q = min (orElse (parseInt q) 20) 100"

definition historyOffset :: "string option \<Rightarrow> int" where
  "historyOffset q = max (orElse (parseInt q) 0) 0"

definition getHistory ::
  "database \<Rightarrow> string \<Rightarrow> string option \<Rightarrow> string option \<Rightarrow> historyResponse response" where
  "getHistory db w limitQuery offsetQuery =
     (let limitV = historyLimit limitQuery; offsetV = historyOffset offsetQuery in
      if \<not> isValidWalletAddress w then BadRequest400 InvalidWalletAddressFormat
      else
        (case getUserByWallet db w of
           None \<Rightarrow> NotFound404
         | Some existingUser \<Rightarrow>
             (case getUserScoreHistory db w limitV offsetV of
                Inl e \<Rightarrow> InternalError500
              | Inr h \<Rightarrow>
                  Ok200 \<lparr>history = hd_scores h, pg_total = hd_total h, pg_limit = limitV,
                         pg_offset = offsetV, pg_hasMore = hd_hasMore h\<rparr>)))"

subsection \<open>\<^verbatim>\<open>GET /api/leaderboard\<close>\<close>

record leaderboardEntry =
  rank :: nat
  lb_walletAddress :: string
  lb_username :: string
  lb_profilePictureUrl :: "string option"
  lb_score :: rat
  lb_level :: string
  quizCount :: nat
  joinedDate :: nat

text \<open>
  The aggregation pipeline: \<^verbatim>\<open>$match\<close> on a total score above 0, \<^verbatim>\<open>$lookup\<close> and
  \<^verbatim>\<open>$size\<close> for the quiz count, \<^verbatim>\<open>$sort\<close> on the total score descending (stable insertion
  sort, one of the orders the store may give to equal totals), \<^verbatim>\<open>$limit\<close>, which the store
  refuses unless it is positive; then the ranks \<^verbatim>\<open>index + 1\<close>.
\<close>

definition toEntry :: "database \<Rightarrow> nat \<times> user \<Rightarrow> leaderboardEntry" where
  "toEntry db iu =
     (case iu of
        (i, u) \<Rightarrow>
          \<lparr>rank = i + 1,
           lb_walletAddress = walletAddress u,
           lb_username = username u,
           lb_profilePictureUrl = profilePictureUrl u,
           lb_score = totalScore u,
           lb_level = level u,
           quizCount = length (filter (\<lambda>d. sc_walletAddress d = walletAddress u) (scores db)),
           joinedDate = createdAt u\<rparr>)"

definition getLeaderboard :: "database \<Rightarrow> int \<Rightarrow> exn + leaderboardEntry list" where
  "getLeaderboard db limitV =
     (if limitV \<le> 0 then Inl (Exn (Some 15958) ''the limit must be positive'')
      else
        (let matched = filter (\<lambda>u. 0 < totalScore u) (users db);
             sorted_users = sort_key (\<lambda>u. - totalScore u) matched;
             limited = take (nat limitV) sorted_users
         in Inr (map (toEntry db) (enumerate 0 limited))))"

definition leaderboardLimit :: "string option \<Rightarrow> int" where
  "leaderboardLimit q = min (orElse (parseInt q) 100) 500"

record leaderboardResponse =
  leaderboard :: "leaderboardEntry list"
  totalPlayers :: nat

definition getLeaderboardHandler :: "database \<Rightarrow> string option \<Rightarrow> leaderboardResponse response" where
  "getLeaderboardHandler db limitQuery =
     (case getLeaderboard db (leaderboardLimit limitQuery) of
        Inl e \<Rightarrow> InternalError500
      | Inr lb \<Rightarrow> Ok200 \<lparr>leaderboard = lb, totalPlayers = length lb\<rparr>)"

subsection \<open>Reachable states\<close>

text \<open>
  The two requests that write to the store; the GET handlers are functions of the store and
  return a response only. A state is reachable when some sequence of requests leads to it
  from the empty store.
\<close>

datatype request =
    PostUsers "string option" "string option" "string option"
  | PostScores "string option" "string option" jsval "string option" "rat option"

fun serve :: "nat \<Rightarrow> request \<Rightarrow> database \<Rightarrow> database" where
  "serve now (PostUsers w name pic) db = fst (postUsers now db w name pic)"
| "serve now (PostScores w q s d m) db = fst (postScores now db w q s d m)"

inductive reachable :: "database \<Rightarrow> bool" where
  reachable_empty: "reachable emptyDb"
| reachable_serve: "reachable db \<Longrightarrow> reachable (serve now rq db)"


text \<open>A sequence of requests, each with its clock reading, served one after the other.\<close>

fun serveAll :: "(nat \<times> request) list \<Rightarrow> database \<Rightarrow> database" where
  "serveAll [] db = db"
| "serveAll (step # rest) db = serveAll rest (serve (fst step) (snd step) db)"



fun isCreated :: "'a response \<Rightarrow> bool" where
  "isCreated (Created201 x) = True"
| "isCreated _ = False"

text \<open>
  The checks \<^verbatim>\<open>POST /api/scores\<close> makes before it reads the store: the required fields, the
  range of the score, the difficulty.
\<close>

definition passesValidation ::
  "string option \<Rightarrow> string option \<Rightarrow> jsval \<Rightarrow> string option \<Rightarrow> rat option \<Rightarrow> bool" where
  "passesValidation walletAddressField quizIdField scoreField difficultyField maxScoreField =
     (truthy walletAddressField \<and> truthy quizIdField \<and> truthy difficultyField \<and>
      (case scoreField of
         JNumber s \<Rightarrow> 0 \<le> s \<and> s \<le> (case maxScoreField of None \<Rightarrow> 20 | Some m \<Rightarrow> m)
       | _ \<Rightarrow> False) \<and>
      (case difficultyField of
         None \<Rightarrow> False
       | Some d \<Rightarrow> toLowerCase d \<in> set validDifficulties))"

section \<open>Concurrent submissions\<close>

text \<open>
  The server runs on one thread: the code of a handler between two \<^verbatim>\<open>await\<close>s (or inside
  one callback) runs without interruption, and another request can run only while a handler
  waits for the store. A submission that has passed its validation is therefore a task that
  takes one step per call of the store; two submissions in flight are interleaved by a
  schedule that says which of the two takes the next step.
\<close>

record submission =
  sub_walletAddress :: string
  sub_quizId :: string
  sub_score :: rat
  sub_difficulty :: string
  sub_maxScore :: rat

fun interleave ::
  "(submission \<Rightarrow> 'st \<Rightarrow> 'db \<Rightarrow> 'st \<times> 'db) \<Rightarrow> submission \<Rightarrow> submission \<Rightarrow> bool list
     \<Rightarrow> 'st \<times> 'st \<times> 'db \<Rightarrow> 'st \<times> 'st \<times> 'db" where
  "interleave step a b [] c = c"
| "interleave step a b (first # sched) c =
     (case c of
        (sa, sb, db) \<Rightarrow>
          if first then (case step a sa db of (sa', db') \<Rightarrow> interleave step a b sched (sa', sb, db'))
          else (case step b sb db of (sb', db') \<Rightarrow> interleave step a b sched (sa, sb', db')))"

subsection \<open>The MongoDB revision\<close>

text \<open>
  The three awaits of \<^verbatim>\<open>POST /api/scores\<close>: \<^verbatim>\<open>getUserByWallet\<close>, \<^verbatim>\<open>createScore\<close>,
  \<^verbatim>\<open>updateUserTotalScore\<close> (one \<^verbatim>\<open>findOneAndUpdate\<close> with \<^verbatim>\<open>$inc\<close>).
\<close>

datatype stage =
    AtGetUser
  | AtCreateScore
  | AtUpdateTotal scoreDoc
  | Finished "scoreResponse response"

fun mongoStep :: "nat \<Rightarrow> submission \<Rightarrow> stage \<Rightarrow> database \<Rightarrow> stage \<times> database" where
  "mongoStep now sb AtGetUser db =
     (case getUserByWallet db (sub_walletAddress sb) of
        None \<Rightarrow> (Finished NotFound404, db)
      | Some existingUser \<Rightarrow> (AtCreateScore, db))"
| "mongoStep now sb AtCreateScore db =
     (case createScore now db (sub_walletAddress sb) (sub_quizId sb) (sub_score sb)
             (sub_difficulty sb) (sub_maxScore sb) of
        (db1, Inl e) \<Rightarrow> (Finished (catchResponse ''already completed'' e), db1)
      | (db1, Inr newScore) \<Rightarrow> (AtUpdateTotal newScore, db1))"
| "mongoStep now sb (AtUpdateTotal newScore) db =
     (case updateUserTotalScore now db (sub_walletAddress sb) (sub_score sb) of
        (db2, None) \<Rightarrow> (Finished InternalError500, db2)
      | (db2, Some updatedUser) \<Rightarrow>
          (Finished (Created201
             \<lparr>rs_score = score newScore,
              rs_maxScore = maxScore newScore,
              rs_percentage = Math_round (percentage newScore),
              rs_difficulty = difficulty newScore,
              newTotalScore = totalScore updatedUser,
              eligibleForReward = js_ge (percentage newScore) 70,
              submittedAt = sc_createdAt newScore\<rparr>), db2))"
| "mongoStep now sb (Finished r) db = (Finished r, db)"

definition totalOf :: "database \<Rightarrow> string \<Rightarrow> rat option" where
  "totalOf db a = map_option totalScore (find (\<lambda>u. walletAddress u = a) (users db))"

text \<open>What a task has added to the total of its participant: its raw score once it has answered 201.\<close>

fun accrued :: "submission \<Rightarrow> stage \<Rightarrow> rat" where
  "accrued sb (Finished (Created201 r)) = sub_score sb"
| "accrued sb st = 0"

subsection \<open>The SQLite revision\<close>

text \<open>
  The second revision of \<^verbatim>\<open>src/server.js\<close> (version 2.0.0, on the tables of the second
  revision of \<^verbatim>\<open>src/database.js\<close>). Its \<^verbatim>\<open>POST /api/scores\<close> has three callbacks: after the
  \<^verbatim>\<open>SELECT\<close> of the user row, after the \<^verbatim>\<open>INSERT\<close> of the score row, and after the
  \<^verbatim>\<open>UPDATE\<close> that writes \<^verbatim>\<open>user.total_score + score\<close>, computed from the row read by the
  \<^verbatim>\<open>SELECT\<close>. The columns \<^verbatim>\<open>id\<close> and \<^verbatim>\<open>created_at\<close> are left out. The table
  \<^verbatim>\<open>scores\<close> is \<^verbatim>\<open>UNIQUE(wallet_address, quiz_id)\<close>; the handler answers 409 when the
  driver reports the violation with the code it tests for.
\<close>

record sqlUser =
  wallet_address :: string
  sq_username :: string
  profile_picture :: "string option"
  total_score :: rat
  sq_level :: string

record sqlScore =
  sq_wallet_address :: string
  quiz_id :: string
  sq_score :: rat
  sq_difficulty :: string
  max_score :: rat
  sq_percentage :: jsnum

record sqlDatabase =
  sq_users :: "sqlUser list"
  sq_scores :: "sqlScore list"

record sqlScoreResponse =
  sr_score :: rat
  sr_maxScore :: rat
  sr_percentage :: jsnum
  sr_newTotalScore :: rat
  sr_difficulty :: string
  eligible_for_reward :: bool

datatype sqlStage =
    SqSelectUser
  | SqInsertScore sqlUser
  | SqUpdateTotal sqlUser
  | SqFinished "sqlScoreResponse response"

fun sqliteStep :: "submission \<Rightarrow> sqlStage \<Rightarrow> sqlDatabase \<Rightarrow> sqlStage \<times> sqlDatabase" where
  "sqliteStep sb SqSelectUser db =
     (case find (\<lambda>u. wallet_address u = toLowerCase (sub_walletAddress sb)) (sq_users db) of
        None \<Rightarrow> (SqFinished NotFound404, db)
      | Some existingUser \<Rightarrow> (SqInsertScore existingUser, db))"
| "sqliteStep sb (SqInsertScore existingUser) db =
     (if (toLowerCase (sub_walletAddress sb), sub_quizId sb)
           \<in> set (map (\<lambda>r. (sq_wallet_address r, quiz_id r)) (sq_scores db))
      then (SqFinished Conflict409, db)
      else (SqUpdateTotal existingUser,
            db\<lparr>sq_scores := sq_scores db @
                 [\<lparr>sq_wallet_address = toLowerCase (sub_walletAddress sb),
                   quiz_id = sub_quizId sb,
                   sq_score = sub_score sb,
                   sq_difficulty = sub_difficulty sb,
                   max_score = sub_maxScore sb,
                   sq_percentage = js_mul (js_div (sub_score sb) (sub_maxScore sb)) 100\<rparr>]\<rparr>))"
| "sqliteStep sb (SqUpdateTotal existingUser) db =
     (let newTotal = total_score existingUser + sub_score sb in
      (SqFinished (Created201
         \<lparr>sr_score = sub_score sb,
          sr_maxScore = sub_maxScore sb,
          sr_percentage = Math_round (js_mul (js_div (sub_score sb) (sub_maxScore sb)) 100),
          sr_newTotalScore = newTotal,
          sr_difficulty = sub_difficulty sb,
          eligible_for_reward = js_ge (js_mul (js_div (sub_score sb) (sub_maxScore sb)) 100) 70\<rparr>),
       db\<lparr>sq_users :=
            map (\<lambda>u. if wallet_address u = toLowerCase (sub_walletAddress sb)
                      then u\<lparr>total_score := newTotal\<rparr> else u) (sq_users db)\<rparr>))"
| "sqliteStep sb (SqFinished r) db = (SqFinished r, db)"

section \<open>An example store\<close>

text \<open>
  The store after \<^verbatim>\<open>POST /api/users\<close> of one participant at clock reading 1, used to
  evaluate the handlers at concrete requests.
\<close>

definition alice :: string where
  "alice = ''0xABaaaaaaaaaaaaaaaaaaaaaaaaaaaaaaaaaaaaaa''"

definition lowerAlice :: string where
  "lowerAlice = ''0xabaaaaaaaaaaaaaaaaaaaaaaaaaaaaaaaaaaaaaa''"

definition aliceUser :: user where
  "aliceUser = \<lparr>walletAddress = lowerAlice, username = ''Alice'', profilePictureUrl = None,
      totalScore = 0, level = ''beginner'', createdAt = 1, updatedAt = 1\<rparr>"

definition aliceDb :: database where
  "aliceDb = \<lparr>users = [aliceUser], scores = []\<rparr>"

definition scoreQ1 :: scoreDoc where
  "scoreQ1 = \<lparr>sc_walletAddress = lowerAlice, quizId = ''q1'', score = 18, difficulty = ''medium'',
      maxScore = 20, percentage = Num 90, sc_createdAt = 2\<rparr>"

definition scoreQ2 :: scoreDoc where
  "scoreQ2 = \<lparr>sc_walletAddress = lowerAlice, quizId = ''q2'', score = 10, difficulty = ''hard'',
      maxScore = 20, percentage = Num 50, sc_createdAt = 3\<rparr>"

definition aliceDb2 :: database where
  "aliceDb2 = \<lparr>users = [aliceUser\<lparr>totalScore := 28, updatedAt := 3\<rparr>],
               scores = [scoreQ1, scoreQ2]\<rparr>"

definition boardDb :: database where
  "boardDb =
     \<lparr>users = [\<lparr>walletAddress = ''0xbbbbbbbbbbbbbbbbbbbbbbbbbbbbbbbbbbbbbbbb'', username = ''Bob'',
                 profilePictureUrl = None, totalScore = 5, level = ''beginner'', createdAt = 0,
                 updatedAt = 4\<rparr>,
               aliceUser\<lparr>totalScore := 28, updatedAt := 3\<rparr>,
               \<lparr>walletAddress = ''0xcccccccccccccccccccccccccccccccccccccccc'', username = ''Carol'',
                 profilePictureUrl = None, totalScore = 0, level = ''beginner'', createdAt = 5,
                 updatedAt = 5\<rparr>],
      scores = [scoreQ1, scoreQ2]\<rparr>"

text \<open>Two submissions of the example participant, on two quizzes, and the SQLite store.\<close>

definition subQ1 :: submission where
  "subQ1 = \<lparr>sub_walletAddress = alice, sub_quizId = ''q1'', sub_score = 10,
            sub_difficulty = ''easy'', sub_maxScore = 20\<rparr>"

definition subQ2 :: submission where
  "subQ2 = \<lparr>sub_walletAddress = alice, sub_quizId = ''q2'', sub_score = 5,
            sub_difficulty = ''easy'', sub_maxScore = 20\<rparr>"

definition sqlAliceDb :: sqlDatabase where
  "sqlAliceDb =
     \<lparr>sq_users = [\<lparr>wallet_address = lowerAlice, sq_username = ''Alice'', profile_picture = None,
                    total_score = 0, sq_level = ''beginner''\<rparr>],
      sq_scores = []\<rparr>"

section \<open>Properties\<close>

subsection \<open>Strings and addresses\<close>

lemma trim_valid: "isValidWalletAddress a \<Longrightarrow> trim a = a"
proof -
  assume v: "isValidWalletAddress a"
  then obtain hex where a: "a = CHR ''0'' # CHR ''x'' # hex" and len: "length hex = 40"
    and hx: "list_all isHexDigit hex"
    by (cases a rule: isValidWalletAddress.cases) auto
  from len have ne: "hex \<noteq> []" by auto
  with hx have "isHexDigit (last hex)" by (simp add: list_all_iff)
  then have lw: "\<not> isWhiteSpace (last hex)"
    by (auto simp: isHexDigit_def isWhiteSpace_def)
  have "dropWhile isWhiteSpace a = a"
    by (simp add: a isWhiteSpace_def)
  moreover have "dropWhile isWhiteSpace (rev a) = rev a"
    using ne lw by (cases hex rule: rev_cases) (auto simp: a)
  ultimately show ?thesis by (simp add: trim_def)
qed

subsection \<open>The store\<close>

lemma createScore_Inr:
  assumes "createScore now db w q s d m = (db', Inr doc)"
  shows "doc = \<lparr>sc_walletAddress = toLowerCase w, quizId = q, score = s, difficulty = d,
                 maxScore = (if m = 0 then 20 else m),
                 percentage = js_mul (js_div s (if m = 0 then 20 else m)) 100,
                 sc_createdAt = now\<rparr>"
    and "db' = db\<lparr>scores := scores db @ [doc]\<rparr>"
    and "(toLowerCase w, q) \<notin> set (map scoreKey (scores db))"
  using assms unfolding createScore_def scores_insertOne_def
  by (auto simp: Let_def scoreKey_def split: if_splits)

lemma createScore_Inl:
  assumes "createScore now db w q s d m = (db', Inl e)"
  shows "db' = db" and "e = Exn None ''Quiz already completed by this user''"
    and "(toLowerCase w, q) \<in> set (map scoreKey (scores db))"
  using assms unfolding createScore_def scores_insertOne_def
  by (auto simp: Let_def scoreKey_def split: if_splits)

lemma updateUserTotalScore_scores:
  "updateUserTotalScore now db w s = (db', r) \<Longrightarrow> scores db' = scores db"
  unfolding updateUserTotalScore_def by (auto split: prod.splits)

lemma findOneAndUpdate_None:
  "findOneAndUpdate P f us = (us', None) \<Longrightarrow> us' = us \<and> (\<forall>u \<in> set us. \<not> P u)"
  by (induction us arbitrary: us') (auto split: if_splits prod.splits)

lemma findOneAndUpdate_Some:
  "findOneAndUpdate P f us = (us', Some v) \<Longrightarrow>
     \<exists>pre u post. us = pre @ u # post \<and> (\<forall>x \<in> set pre. \<not> P x) \<and> P u \<and> v = f u \<and>
       us' = pre @ f u # post"
proof (induction us arbitrary: us')
  case Nil
  then show ?case by simp
next
  case (Cons a us)
  show ?case
  proof (cases "P a")
    case True
    with Cons.prems have "us' = f a # us" "v = f a" by auto
    with True show ?thesis by (intro exI[of _ "[]"] exI[of _ a] exI[of _ us]) simp
  next
    case False
    with Cons.prems obtain us'' where r: "findOneAndUpdate P f us = (us'', Some v)"
      and u: "us' = a # us''"
      by (auto split: prod.splits)
    from Cons.IH[OF r] obtain pre u post where
      "us = pre @ u # post" "\<forall>x \<in> set pre. \<not> P x" "P u" "v = f u" "us'' = pre @ f u # post"
      by blast
    with False u show ?thesis
      by (intro exI[of _ "a # pre"] exI[of _ u] exI[of _ post]) simp
  qed
qed

subsection \<open>Successful submissions\<close>

lemma postScores_Created:
  assumes "postScores now db wfld qfld sfld dfld mfld = (db', Created201 r)"
  obtains w q d s existingUser db1 doc u' where
    "wfld = Some w" "qfld = Some q" "dfld = Some d" "sfld = JNumber s" "w \<noteq> []" "q \<noteq> []" "d \<noteq> []"
    "0 \<le> s" "s \<le> (case mfld of None \<Rightarrow> 20 | Some m \<Rightarrow> m)"
    "toLowerCase d \<in> set validDifficulties"
    "getUserByWallet db w = Some existingUser"
    "createScore now db w q s (toLowerCase d) (case mfld of None \<Rightarrow> 20 | Some m \<Rightarrow> m) = (db1, Inr doc)"
    "updateUserTotalScore now db1 w s = (db', Some u')"
    "r = \<lparr>rs_score = score doc, rs_maxScore = maxScore doc,
          rs_percentage = Math_round (percentage doc), rs_difficulty = difficulty doc,
          newTotalScore = totalScore u', eligibleForReward = js_ge (percentage doc) 70,
          submittedAt = sc_createdAt doc\<rparr>"
  using assms unfolding postScores_def
  by (auto simp: Let_def catchResponse_def
      split: option.splits jsval.splits if_splits prod.splits sum.splits)






subsection \<open>The handlers at concrete requests\<close>

lemma postUsers_alice:
  "postUsers 1 emptyDb (Some alice) (Some ''Alice'') None = (aliceDb, Created201 aliceUser)"
  by code_simp

lemma submit_q1:
  "postScores 2 aliceDb (Some alice) (Some ''q1'') (JNumber 18) (Some ''Medium'') (Some 20) =
     (\<lparr>users = [aliceUser\<lparr>totalScore := 18, updatedAt := 2\<rparr>],
       scores = [\<lparr>sc_walletAddress = lowerAlice, quizId = ''q1'', score = 18,
                  difficulty = ''medium'', maxScore = 20, percentage = Num 90,
                  sc_createdAt = 2\<rparr>]\<rparr>,
      Created201 \<lparr>rs_score = 18, rs_maxScore = 20, rs_percentage = Num 90,
                  rs_difficulty = ''medium'', newTotalScore = 18, eligibleForReward = True,
                  submittedAt = 2\<rparr>)"
  by code_simp



subsection \<open>Claims about the stored percentage\<close>









subsection \<open>Pagination and the leaderboard\<close>

lemma orElse_nonzero: "d \<noteq> 0 \<Longrightarrow> orElse v d \<noteq> 0"
  by (auto simp: orElse_def split: option.splits)

lemma historyLimit_le: "historyLimit q \<le> 100"
  by (simp add: historyLimit_def)

lemma historyLimit_nonzero: "historyLimit q \<noteq> 0"
  using orElse_nonzero[of 20 "parseInt q"] by (auto simp: historyLimit_def min_def)

lemma historyLimit_parsed: "parseInt q = Some n \<Longrightarrow> n \<noteq> 0 \<Longrightarrow> historyLimit q = min n 100"
  by (simp add: historyLimit_def orElse_def)

lemma historyLimit_default: "parseInt q = None \<or> parseInt q = Some 0 \<Longrightarrow> historyLimit q = 20"
  by (auto simp: historyLimit_def orElse_def)

lemma historyOffset_ge: "0 \<le> historyOffset q"
  by (simp add: historyOffset_def)

lemma sorted_desc_sort_key:
  "sorted_wrt (\<lambda>a b. f b \<le> f a) (sort_key (\<lambda>x. - f x) xs)" for f :: "'a \<Rightarrow> 'b::linordered_idom"
proof -
  have "sorted (map (\<lambda>x. - f x) (sort_key (\<lambda>x. - f x) xs))" by (rule sorted_sort_key)
  then show ?thesis by (simp add: sorted_map)
qed

lemma sorted_desc_createdAt:
  "sorted_wrt (\<lambda>a b. sc_createdAt b \<le> sc_createdAt a) (sort_key (\<lambda>d. - int (sc_createdAt d)) xs)"
  using sorted_desc_sort_key[of "\<lambda>d. int (sc_createdAt d)" xs] by simp

lemma sorted_wrt_cursorLimit: "sorted_wrt R xs \<Longrightarrow> sorted_wrt R (cursorLimit n xs)"
  by (simp add: cursorLimit_def sorted_wrt_take)

lemma set_cursorLimit: "set (cursorLimit n xs) \<subseteq> set xs"
  by (auto simp: cursorLimit_def dest: in_set_takeD)

lemma getUserScoreHistory_Inr:
  assumes "getUserScoreHistory db w limitV offsetV = Inr h"
  shows "sorted_wrt (\<lambda>a b. sc_createdAt b \<le> sc_createdAt a) (hd_scores h)"
    and "set (hd_scores h) \<subseteq> {d \<in> set (scores db). sc_walletAddress d = toLowerCase w}"
    and "hd_total h = length (filter (\<lambda>d. sc_walletAddress d = toLowerCase w) (scores db))"
proof -
  let ?mine = "filter (\<lambda>d. sc_walletAddress d = toLowerCase w) (scores db)"
  let ?sorted = "sort_key (\<lambda>d. - int (sc_createdAt d)) ?mine"
  from assms have h: "hd_scores h = cursorLimit limitV (drop (nat offsetV) ?sorted)"
    and t: "hd_total h = length ?mine"
    by (auto simp: getUserScoreHistory_def Let_def split: if_splits)
  show "sorted_wrt (\<lambda>a b. sc_createdAt b \<le> sc_createdAt a) (hd_scores h)"
    unfolding h by (intro sorted_wrt_cursorLimit sorted_wrt_drop sorted_desc_createdAt)
  have "set (hd_scores h) \<subseteq> set ?sorted"
    unfolding h using set_cursorLimit set_drop_subset by fast
  then show "set (hd_scores h) \<subseteq> {d \<in> set (scores db). sc_walletAddress d = toLowerCase w}"
    by auto
  show "hd_total h = length ?mine" by (rule t)
qed

lemma getHistory_Ok:
  assumes "getHistory db w lq oq = Ok200 h"
  shows "pg_limit h = historyLimit lq \<and> pg_offset h = historyOffset oq \<and>
         sorted_wrt (\<lambda>a b. sc_createdAt b \<le> sc_createdAt a) (history h) \<and>
         set (history h) \<subseteq> {d \<in> set (scores db). sc_walletAddress d = toLowerCase w} \<and>
         pg_total h = length (filter (\<lambda>d. sc_walletAddress d = toLowerCase w) (scores db))"
proof -
  from assms obtain hd where g: "getUserScoreHistory db w (historyLimit lq) (historyOffset oq) = Inr hd"
    and h: "h = \<lparr>history = hd_scores hd, pg_total = hd_total hd, pg_limit = historyLimit lq,
                  pg_offset = historyOffset oq, pg_hasMore = hd_hasMore hd\<rparr>"
    by (auto simp: getHistory_def Let_def split: if_splits option.splits sum.splits)
  from getUserScoreHistory_Inr[OF g] show ?thesis by (simp add: h)
qed

lemma leaderboardLimit_le: "leaderboardLimit q \<le> 500"
  by (simp add: leaderboardLimit_def)

lemma leaderboardLimit_nonzero: "leaderboardLimit q \<noteq> 0"
  using orElse_nonzero[of 100 "parseInt q"] by (auto simp: leaderboardLimit_def min_def)

lemma leaderboardLimit_parsed: "parseInt q = Some n \<Longrightarrow> n \<noteq> 0 \<Longrightarrow> leaderboardLimit q = min n 500"
  by (simp add: leaderboardLimit_def orElse_def)

lemma map_fst_enumerate_comp:
  "map (\<lambda>x. f (fst x)) (enumerate n xs) = map f [n ..< n + length xs]"
proof -
  have "map (\<lambda>x. f (fst x)) (enumerate n xs) = map f (map fst (enumerate n xs))"
    by (simp only: map_map o_def)
  then show ?thesis by (simp only: map_fst_enumerate)
qed

lemma map_snd_enumerate_comp: "map (\<lambda>x. f (snd x)) (enumerate n xs) = map f xs"
proof -
  have "map (\<lambda>x. f (snd x)) (enumerate n xs) = map f (map snd (enumerate n xs))"
    by (simp only: map_map o_def)
  then show ?thesis by (simp only: map_snd_enumerate)
qed

lemma rank_toEntry: "map rank (map (toEntry db) (enumerate 0 us)) = [1 ..< Suc (length us)]"
proof -
  have "map rank (map (toEntry db) (enumerate 0 us)) = map (\<lambda>x. Suc (fst x)) (enumerate 0 us)"
    by (simp add: toEntry_def split_beta o_def)
  then have "map rank (map (toEntry db) (enumerate 0 us)) = map Suc [0 ..< 0 + length us]"
    by (simp only: map_fst_enumerate_comp)
  then show ?thesis using map_Suc_upt[of 0 "length us"] by simp
qed

lemma score_toEntry: "map lb_score (map (toEntry db) (enumerate 0 us)) = map totalScore us"
proof -
  have "map lb_score (map (toEntry db) (enumerate 0 us)) = map (\<lambda>x. totalScore (snd x)) (enumerate 0 us)"
    by (simp add: toEntry_def split_beta o_def)
  then show ?thesis by (simp only: map_snd_enumerate_comp)
qed

lemma wallet_toEntry: "e \<in> set (map (toEntry db) (enumerate 0 us)) \<Longrightarrow>
  \<exists>u \<in> set us. walletAddress u = lb_walletAddress e \<and> totalScore u = lb_score e \<and>
     quizCount e = length (filter (\<lambda>d. sc_walletAddress d = walletAddress u) (scores db))"
  by (auto simp: toEntry_def enumerate_eq_zip dest: set_zip_rightD)

lemma getLeaderboard_Inr:
  assumes "getLeaderboard db limitV = Inr lb"
  shows "0 < limitV"
    and "length lb = min (nat limitV) (length (filter (\<lambda>u. 0 < totalScore u) (users db)))"
    and "\<forall>e \<in> set lb. 0 < lb_score e \<and>
           (\<exists>u \<in> set (users db). walletAddress u = lb_walletAddress e \<and> totalScore u = lb_score e)"
    and "sorted_wrt (\<lambda>a b. lb_score b \<le> lb_score a) lb"
    and "map rank lb = [1 ..< Suc (length lb)]"
proof -
  let ?matched = "filter (\<lambda>u. 0 < totalScore u) (users db)"
  let ?limited = "take (nat limitV) (sort_key (\<lambda>u. - totalScore u) ?matched)"
  from assms show pos: "0 < limitV" by (auto simp: getLeaderboard_def split: if_splits)
  from assms have lb: "lb = map (toEntry db) (enumerate 0 ?limited)"
    by (auto simp: getLeaderboard_def Let_def split: if_splits)
  show "length lb = min (nat limitV) (length ?matched)" by (simp add: lb min.commute)
  have sub: "set ?limited \<subseteq> set ?matched"
    using set_take_subset[of "nat limitV" "sort_key (\<lambda>u. - totalScore u) ?matched"] by simp
  show "\<forall>e \<in> set lb. 0 < lb_score e \<and>
           (\<exists>u \<in> set (users db). walletAddress u = lb_walletAddress e \<and> totalScore u = lb_score e)"
  proof
    fix e assume "e \<in> set lb"
    then obtain u where "u \<in> set ?limited" "walletAddress u = lb_walletAddress e" "totalScore u = lb_score e"
      unfolding lb using wallet_toEntry by blast
    with sub show "0 < lb_score e \<and>
           (\<exists>u \<in> set (users db). walletAddress u = lb_walletAddress e \<and> totalScore u = lb_score e)"
      by auto
  qed
  have "sorted_wrt (\<lambda>a b. totalScore b \<le> totalScore a) ?limited"
    by (intro sorted_wrt_take sorted_desc_sort_key)
  then have "sorted_wrt (\<lambda>a b. b \<le> a) (map totalScore ?limited)"
    by (simp add: sorted_wrt_map)
  then have "sorted_wrt (\<lambda>a b. b \<le> a) (map lb_score lb)"
    by (simp only: lb score_toEntry)
  then show "sorted_wrt (\<lambda>a b. lb_score b \<le> lb_score a) lb"
    by (simp add: sorted_wrt_map)
  show "map rank lb = [1 ..< Suc (length lb)]"
    unfolding lb using rank_toEntry[of db ?limited] by simp
qed


lemma leaderboard_boardDb:
  "getLeaderboardHandler boardDb (Some ''10'') =
     Ok200 \<lparr>leaderboard =
        [\<lparr>rank = 1, lb_walletAddress = lowerAlice, lb_username = ''Alice'',
          lb_profilePictureUrl = None, lb_score = 28, lb_level = ''beginner'', quizCount = 2,
          joinedDate = 1\<rparr>,
         \<lparr>rank = 2, lb_walletAddress = ''0xbbbbbbbbbbbbbbbbbbbbbbbbbbbbbbbbbbbbbbbb'',
          lb_username = ''Bob'', lb_profilePictureUrl = None, lb_score = 5,
          lb_level = ''beginner'', quizCount = 0, joinedDate = 0\<rparr>],
       totalPlayers = 2\<rparr>"
  by code_simp

lemma leaderboardLimit_10: "leaderboardLimit (Some ''10'') = 10"
  by code_simp

lemma leaderboardLimit_minus5: "leaderboardLimit (Some ''-5'') = - 5"
  by code_simp

lemma leaderboard_minus5: "getLeaderboardHandler boardDb (Some ''-5'') = InternalError500"
  by code_simp

lemma history_aliceDb2:
  "getHistory aliceDb2 alice (Some ''1000'') (Some ''-3'') =
     Ok200 \<lparr>history = [scoreQ2, scoreQ1], pg_total = 2, pg_limit = 100, pg_offset = 0,
            pg_hasMore = False\<rparr>"
  by code_simp

lemma history_minus5:
  "getHistory aliceDb2 alice (Some ''-5'') None =
     Ok200 \<lparr>history = [scoreQ2, scoreQ1], pg_total = 2, pg_limit = - 5, pg_offset = 0,
            pg_hasMore = False\<rparr>"
  by code_simp

lemma historyLimit_minus5: "historyLimit (Some ''-5'') = - 5"
  by code_simp

text \<open>
  Claim C4, as amended. \<^verbatim>\<open>GET /api/leaderboard\<close> lists only participants with a total score
  above 0, ordered by total score descending, each with the rank of its position (the ranks
  are 1, 2, ..., k); the list has as many entries as the limit allows. The limit is at most
  500: a missing, unreadable or zero limit is 100, a limit of 1 or more is \<open>min n 500\<close>, and
  a negative limit is passed to the store unchanged, which refuses it (the answer is 500).
\<close>

theorem computeLeaderboard_ranked:
  "leaderboardLimit lq \<le> 500 \<and> leaderboardLimit lq \<noteq> 0 \<and>
   (\<forall>n. parseInt lq = Some n \<and> n \<noteq> 0 \<longrightarrow> leaderboardLimit lq = min n 500) \<and>
   (parseInt lq = None \<or> parseInt lq = Some 0 \<longrightarrow> leaderboardLimit lq = 100) \<and>
   (leaderboardLimit lq < 0 \<longrightarrow> getLeaderboardHandler db lq = InternalError500) \<and>
   (\<forall>r. getLeaderboardHandler db lq = Ok200 r \<longrightarrow>
      1 \<le> leaderboardLimit lq \<and>
      length (leaderboard r) =
        min (nat (leaderboardLimit lq)) (length (filter (\<lambda>u. 0 < totalScore u) (users db))) \<and>
      (\<forall>e \<in> set (leaderboard r). 0 < lb_score e \<and>
         (\<exists>u \<in> set (users db). walletAddress u = lb_walletAddress e \<and> totalScore u = lb_score e)) \<and>
      sorted_wrt (\<lambda>a b. lb_score b \<le> lb_score a) (leaderboard r) \<and>
      map rank (leaderboard r) = [1 ..< Suc (length (leaderboard r))])"
proof (intro conjI allI impI)
  show "leaderboardLimit lq \<le> 500" by (rule leaderboardLimit_le)
  show "leaderboardLimit lq \<noteq> 0" by (rule leaderboardLimit_nonzero)
  show "leaderboardLimit lq = min n 500" if "parseInt lq = Some n \<and> n \<noteq> 0" for n
    using that by (simp add: leaderboardLimit_parsed)
  show "leaderboardLimit lq = 100" if "parseInt lq = None \<or> parseInt lq = Some 0"
    using that by (auto simp: leaderboardLimit_def orElse_def)
  show "getLeaderboardHandler db lq = InternalError500" if "leaderboardLimit lq < 0"
    using that by (simp add: getLeaderboardHandler_def getLeaderboard_def)
next
  fix r
  assume ok: "getLeaderboardHandler db lq = Ok200 r"
  then obtain lb where g: "getLeaderboard db (leaderboardLimit lq) = Inr lb"
    and r: "leaderboard r = lb"
    by (auto simp: getLeaderboardHandler_def split: sum.splits)
  note facts = getLeaderboard_Inr[OF g]
  show "1 \<le> leaderboardLimit lq" using facts(1) by simp
  show "length (leaderboard r) =
        min (nat (leaderboardLimit lq)) (length (filter (\<lambda>u. 0 < totalScore u) (users db)))"
    using facts(2) by (simp add: r)
  show "\<forall>e \<in> set (leaderboard r). 0 < lb_score e \<and>
         (\<exists>u \<in> set (users db). walletAddress u = lb_walletAddress e \<and> totalScore u = lb_score e)"
    using facts(3) by (simp add: r)
  show "sorted_wrt (\<lambda>a b. lb_score b \<le> lb_score a) (leaderboard r)"
    using facts(4) by (simp add: r)
  show "map rank (leaderboard r) = [1 ..< Suc (length (leaderboard r))]"
    using facts(5) by (simp add: r)
qed

text \<open>The leaderboard of three participants with the totals 5, 28 and 0, at the limit 10.\<close>

theorem computeLeaderboard_ranked_witness:
  "leaderboardLimit (Some ''10'') = 10 \<and>
   getLeaderboardHandler boardDb (Some ''10'') =
     Ok200 \<lparr>leaderboard =
        [\<lparr>rank = 1, lb_walletAddress = lowerAlice, lb_username = ''Alice'',
          lb_profilePictureUrl = None, lb_score = 28, lb_level = ''beginner'', quizCount = 2,
          joinedDate = 1\<rparr>,
         \<lparr>rank = 2, lb_walletAddress = ''0xbbbbbbbbbbbbbbbbbbbbbbbbbbbbbbbbbbbbbbbb'',
          lb_username = ''Bob'', lb_profilePictureUrl = None, lb_score = 5,
          lb_level = ''beginner'', quizCount = 0, joinedDate = 0\<rparr>],
       totalPlayers = 2\<rparr> \<and>
   map rank
     [\<lparr>rank = 1, lb_walletAddress = lowerAlice, lb_username = ''Alice'',
       lb_profilePictureUrl = None, lb_score = 28, lb_level = ''beginner'', quizCount = 2,
       joinedDate = 1\<rparr>,
      \<lparr>rank = 2, lb_walletAddress = ''0xbbbbbbbbbbbbbbbbbbbbbbbbbbbbbbbbbbbbbbbb'',
       lb_username = ''Bob'', lb_profilePictureUrl = None, lb_score = 5,
       lb_level = ''beginner'', quizCount = 0, joinedDate = 0\<rparr>] = [1, 2]"
  using computeLeaderboard_ranked[of "Some ''10''" boardDb] leaderboard_boardDb leaderboardLimit_10
  by simp

text \<open>The limit \<^verbatim>\<open>-5\<close> is not clamped into the range from 1 to 500.\<close>

theorem computeLeaderboard_limit_counterexample:
  "leaderboardLimit (Some ''-5'') = - 5 \<and>
   getLeaderboardHandler boardDb (Some ''-5'') = InternalError500"
  by (simp add: leaderboardLimit_minus5 leaderboard_minus5)

text \<open>
  Claim C7, as amended. In \<^verbatim>\<open>GET /api/users/:walletAddress/history\<close> the limit is at most
  100: a missing, unreadable or zero limit is 20, a limit of 1 or more is \<open>min n 100\<close>, and a
  negative limit is passed on unchanged. The offset is at least 0. The entries of the answer
  are entries of the participant, ordered by creation time descending, and the total is the
  number of entries of the participant.
\<close>

theorem listAttempts_pagination:
  "historyLimit lq \<le> 100 \<and> historyLimit lq \<noteq> 0 \<and>
   (\<forall>n. parseInt lq = Some n \<and> n \<noteq> 0 \<longrightarrow> historyLimit lq = min n 100) \<and>
   (parseInt lq = None \<or> parseInt lq = Some 0 \<longrightarrow> historyLimit lq = 20) \<and>
   0 \<le> historyOffset oq \<and>
   (\<forall>h. getHistory db w lq oq = Ok200 h \<longrightarrow>
      pg_limit h = historyLimit lq \<and> pg_offset h = historyOffset oq \<and>
      sorted_wrt (\<lambda>a b. sc_createdAt b \<le> sc_createdAt a) (history h) \<and>
      set (history h) \<subseteq> {d \<in> set (scores db). sc_walletAddress d = toLowerCase w} \<and>
      pg_total h = length (filter (\<lambda>d. sc_walletAddress d = toLowerCase w) (scores db)))"
  using historyLimit_le historyLimit_nonzero historyLimit_parsed historyLimit_default
    historyOffset_ge getHistory_Ok
  by (intro conjI allI impI) blast+

text \<open>The history of two attempts, at the limit 1000 and the offset \<^verbatim>\<open>-3\<close>.\<close>

theorem listAttempts_pagination_witness:
  "historyLimit (Some ''1000'') = 100 \<and> historyOffset (Some ''-3'') = 0 \<and>
   getHistory aliceDb2 alice (Some ''1000'') (Some ''-3'') =
     Ok200 \<lparr>history = [scoreQ2, scoreQ1], pg_total = 2, pg_limit = 100, pg_offset = 0,
            pg_hasMore = False\<rparr> \<and>
   sorted_wrt (\<lambda>a b. sc_createdAt b \<le> sc_createdAt a) [scoreQ2, scoreQ1] \<and>
   map sc_createdAt [scoreQ2, scoreQ1] = [3, 2]"
  using listAttempts_pagination[of "Some ''1000''" "Some ''-3''" aliceDb2 alice] history_aliceDb2
  by (simp add: scoreQ1_def scoreQ2_def)

text \<open>The limit \<^verbatim>\<open>-5\<close> is not clamped into the range from 1 to 100.\<close>

theorem listAttempts_limit_counterexample:
  "historyLimit (Some ''-5'') = - 5 \<and>
   getHistory aliceDb2 alice (Some ''-5'') None =
     Ok200 \<lparr>history = [scoreQ2, scoreQ1], pg_total = 2, pg_limit = - 5, pg_offset = 0,
            pg_hasMore = False\<rparr>"
  by (simp add: historyLimit_minus5 history_minus5)

subsection \<open>The effect of a request on the store\<close>

lemma findOneAndUpdate_all2:
  assumes "\<And>u. R u u" and "\<And>u. P u \<Longrightarrow> R u (f u)"
  shows "list_all2 R us (fst (findOneAndUpdate P f us))"
  by (induction us) (auto simp: assms list_all2_refl split: prod.splits)

lemma findOneAndUpdate_result:
  "snd (findOneAndUpdate P f us) = map_option f (find P us)"
  by (induction us) (auto split: prod.splits)

lemma getUserByWallet_Some_iff:
  "getUserByWallet db w \<noteq> None \<longleftrightarrow> trim (toLowerCase w) \<in> set (map walletAddress (users db))"
  by (force simp: getUserByWallet_def find_None_iff)

lemma updateUserTotalScore_users:
  assumes "updateUserTotalScore now db w s = (db', r)"
  shows "list_all2 (\<lambda>u u'. walletAddress u' = walletAddress u \<and>
            (totalScore u' = totalScore u \<or> totalScore u' = totalScore u + s)) (users db) (users db')"
proof -
  let ?P = "\<lambda>u. walletAddress u = toLowerCase w"
  let ?f = "\<lambda>u. u\<lparr>totalScore := totalScore u + s, updatedAt := now\<rparr>"
  from assms have "users db' = fst (findOneAndUpdate ?P ?f (users db))"
    by (auto simp: updateUserTotalScore_def split: prod.splits)
  then show ?thesis
    by (simp add: findOneAndUpdate_all2)
qed

lemma updateUserTotalScore_Some:
  assumes "updateUserTotalScore now db w s = (db', Some u')"
  shows "toLowerCase w \<in> set (map walletAddress (users db))"
proof -
  from assms have "snd (findOneAndUpdate (\<lambda>u. walletAddress u = toLowerCase w)
      (\<lambda>u. u\<lparr>totalScore := totalScore u + s, updatedAt := now\<rparr>) (users db)) = Some u'"
    by (auto simp: updateUserTotalScore_def split: prod.splits)
  then have "find (\<lambda>u. walletAddress u = toLowerCase w) (users db) \<noteq> None"
    by (auto simp: findOneAndUpdate_result)
  then obtain x where "x \<in> set (users db)" "walletAddress x = toLowerCase w"
    by (auto simp: find_None_iff)
  then show ?thesis by force
qed

lemma updateUser_effect:
  assumes "updateUser now db w name pic = (db', r)"
  shows "scores db' = scores db \<and>
         list_all2 (\<lambda>u u'. walletAddress u' = walletAddress u \<and> totalScore u' = totalScore u)
           (users db) (users db')"
proof (cases "truthy name \<and> (length (trim (the name)) < 3 \<or> 30 < length (trim (the name)))")
  case True
  with assms have "db' = db" by (simp add: updateUser_def)
  then show ?thesis by (simp add: list_all2_refl)
next
  case False
  let ?P = "\<lambda>u. walletAddress u = trim (toLowerCase w)"
  let ?f = "\<lambda>u. u\<lparr>username := (if truthy name then trim (the name) else username u),
                        profilePictureUrl :=
                          (case pic of
                             None \<Rightarrow> profilePictureUrl u
                           | Some p \<Rightarrow> if p \<noteq> [] then Some (trim p) else None),
                        updatedAt := now\<rparr>"
  from assms False have "users db' = fst (findOneAndUpdate ?P ?f (users db))" "scores db' = scores db"
    by (auto simp: updateUser_def split: prod.splits)
  then show ?thesis by (simp add: findOneAndUpdate_all2)
qed

lemma createUser_Inr:
  assumes "createUser now db w name pic = (db', Inr u)"
  shows "db' = db\<lparr>users := users db @ [u]\<rparr>" and "walletAddress u = trim (toLowerCase w)"
    and "totalScore u = 0" and "isValidWalletAddress (walletAddress u)"
    and "walletAddress u \<notin> set (map walletAddress (users db))"
  using assms unfolding createUser_def users_insertOne_def
  by (auto simp: Let_def split: if_splits)

lemma createUser_Inl:
  assumes "createUser now db w name pic = (db', Inl e)"
  shows "db' = db"
  using assms unfolding createUser_def users_insertOne_def
  by (auto simp: Let_def split: if_splits)

lemma postUsers_effect:
  assumes "postUsers now db wfld nfld pic = (db', resp)"
  shows "scores db' = scores db \<and>
         (\<exists>kept new. users db' = kept @ new \<and>
            list_all2 (\<lambda>u u'. walletAddress u' = walletAddress u \<and> totalScore u' = totalScore u)
              (users db) kept \<and>
            (new = [] \<or>
             (\<exists>u. new = [u] \<and> totalScore u = 0 \<and> isValidWalletAddress (walletAddress u) \<and>
                  walletAddress u \<notin> set (map walletAddress (users db)))))"
proof -
  have same: "scores db = scores db \<and>
         (\<exists>kept new. users db = kept @ new \<and>
            list_all2 (\<lambda>u u'. walletAddress u' = walletAddress u \<and> totalScore u' = totalScore u)
              (users db) kept \<and>
            (new = [] \<or>
             (\<exists>u. new = [u] \<and> totalScore u = 0 \<and> isValidWalletAddress (walletAddress u) \<and>
                  walletAddress u \<notin> set (map walletAddress (users db)))))"
    by (intro conjI exI[of _ "users db"] exI[of _ "[]"]) (simp_all add: list_all2_refl)
  consider (unchanged) "db' = db"
    | (updated) w name r where "updateUser now db w (Some name) (if truthy pic then pic else None) = (db', r)"
    | (created) w name r where "createUser now db w name pic = (db', r)"
    using assms unfolding postUsers_def
    by (auto split: option.splits if_splits prod.splits sum.splits)
  then show ?thesis
  proof cases
    case unchanged
    with same show ?thesis by simp
  next
    case updated
    from updateUser_effect[OF updated] show ?thesis
      by (intro conjI exI[of _ "users db'"] exI[of _ "[]"]) simp_all
  next
    case created
    show ?thesis
    proof (cases r)
      case (Inl e)
      with created have "db' = db" by (auto dest: createUser_Inl)
      with same show ?thesis by simp
    next
      case (Inr u)
      with created have c: "createUser now db w name pic = (db', Inr u)" by simp
      from createUser_Inr[OF c] show ?thesis
        by (intro conjI exI[of _ "users db"] exI[of _ "[u]"]) (simp_all add: list_all2_refl)
    qed
  qed
qed

lemma postScores_cases:
  assumes "postScores now db wfld qfld sfld dfld mfld = (db', resp)"
  obtains (unchanged) "db' = db" "\<not> isCreated resp"
  | (recorded) w q d s existingUser db1 doc r where
      "wfld = Some w" "qfld = Some q" "dfld = Some d" "sfld = JNumber s" "0 \<le> s"
      "s \<le> (case mfld of None \<Rightarrow> 20 | Some m \<Rightarrow> m)"
      "getUserByWallet db w = Some existingUser"
      "createScore now db w q s (toLowerCase d) (case mfld of None \<Rightarrow> 20 | Some m \<Rightarrow> m) = (db1, Inr doc)"
      "updateUserTotalScore now db1 w s = (db', r)"
      "isCreated resp \<longleftrightarrow> r \<noteq> None"
  using assms unfolding postScores_def
  by (auto simp: Let_def catchResponse_def dest: createScore_Inl
      split: option.splits jsval.splits if_splits prod.splits sum.splits)

lemma list_all2_witness:
  "list_all2 R xs ys \<Longrightarrow> y \<in> set ys \<Longrightarrow> \<exists>x \<in> set xs. R x y"
  by (metis in_set_conv_nth list_all2_conv_all_nth)

lemma list_all2_same_map:
  "list_all2 (\<lambda>x y. f y = f x \<and> Q x y) xs ys \<Longrightarrow> map f ys = map f xs"
  by (induction xs ys rule: list_all2_induct) auto



lemma postScores_effect:
  assumes "postScores now db wfld qfld sfld dfld mfld = (db', resp)"
  shows "(scores db' = scores db \<or>
          (\<exists>doc w. wfld = Some w \<and> scores db' = scores db @ [doc] \<and>
              sc_walletAddress doc = toLowerCase w \<and> getUserByWallet db w \<noteq> None \<and>
              scoreKey doc \<notin> set (map scoreKey (scores db)))) \<and>
         list_all2 (\<lambda>u u'. walletAddress u' = walletAddress u \<and>
            (totalScore u' = totalScore u \<or>
             (\<exists>s. sfld = JNumber s \<and> 0 \<le> s \<and> s \<le> (case mfld of None \<Rightarrow> 20 | Some m \<Rightarrow> m) \<and>
                  totalScore u' = totalScore u + s))) (users db) (users db')"
  using assms
proof (cases rule: postScores_cases)
  case unchanged
  then show ?thesis by (simp add: list_all2_refl)
next
  case (recorded w q d s existingUser db1 doc r)
  note c = createScore_Inr[OF recorded(8)]
  have u1: "users db1 = users db" and s1: "scores db1 = scores db @ [doc]"
    by (simp_all add: c(2))
  have s': "scores db' = scores db @ [doc]"
    using updateUserTotalScore_scores[OF recorded(9)] s1 by simp
  have key: "scoreKey doc \<notin> set (map scoreKey (scores db))"
    using c(1) c(3) by (simp add: scoreKey_def)
  have "list_all2 (\<lambda>u u'. walletAddress u' = walletAddress u \<and>
            (totalScore u' = totalScore u \<or> totalScore u' = totalScore u + s)) (users db) (users db')"
    using updateUserTotalScore_users[OF recorded(9)] u1 by simp
  then have "list_all2 (\<lambda>u u'. walletAddress u' = walletAddress u \<and>
            (totalScore u' = totalScore u \<or>
             (\<exists>s. sfld = JNumber s \<and> 0 \<le> s \<and> s \<le> (case mfld of None \<Rightarrow> 20 | Some m \<Rightarrow> m) \<and>
                  totalScore u' = totalScore u + s))) (users db) (users db')"
    by (rule list_all2_mono) (use recorded(4,5,6) in auto)
  moreover have "\<exists>doc w. wfld = Some w \<and> scores db' = scores db @ [doc] \<and>
              sc_walletAddress doc = toLowerCase w \<and> getUserByWallet db w \<noteq> None \<and>
              scoreKey doc \<notin> set (map scoreKey (scores db))"
    using recorded(1,7) s' c(1) key by auto
  ultimately show ?thesis by blast
qed

text \<open>What holds in every reachable state.\<close>

lemma reachable_invariant:
  assumes "reachable db"
  shows "(\<forall>u \<in> set (users db). isValidWalletAddress (walletAddress u) \<and> 0 \<le> totalScore u) \<and>
         distinct (map walletAddress (users db)) \<and>
         (\<forall>d \<in> set (scores db). isValidWalletAddress (sc_walletAddress d) \<longrightarrow>
              sc_walletAddress d \<in> set (map walletAddress (users db)))"
  using assms
proof (induction rule: reachable.induct)
  case reachable_empty
  show ?case by (simp add: emptyDb_def)
next
  case (reachable_serve db now rq)
  then have valid: "\<forall>u \<in> set (users db). isValidWalletAddress (walletAddress u) \<and> 0 \<le> totalScore u"
    and dist: "distinct (map walletAddress (users db))"
    and owned: "\<forall>d \<in> set (scores db). isValidWalletAddress (sc_walletAddress d) \<longrightarrow>
              sc_walletAddress d \<in> set (map walletAddress (users db))"
    by blast+
  show ?case
  proof (cases rq)
    case (PostUsers wfld nfld pic)
    obtain db' resp where p: "postUsers now db wfld nfld pic = (db', resp)" by force
    then have sv: "serve now rq db = db'" by (simp add: PostUsers)
    from postUsers_effect[OF p] obtain kept new where
      sc: "scores db' = scores db" and us: "users db' = kept @ new"
      and rel: "list_all2 (\<lambda>u u'. walletAddress u' = walletAddress u \<and> totalScore u' = totalScore u)
              (users db) kept"
      and new: "new = [] \<or>
             (\<exists>u. new = [u] \<and> totalScore u = 0 \<and> isValidWalletAddress (walletAddress u) \<and>
                  walletAddress u \<notin> set (map walletAddress (users db)))"
      by blast
    have addr: "map walletAddress kept = map walletAddress (users db)"
      using rel by (rule list_all2_same_map)
    have "\<forall>u' \<in> set kept. isValidWalletAddress (walletAddress u') \<and> 0 \<le> totalScore u'"
    proof
      fix u' assume "u' \<in> set kept"
      with rel obtain u where "u \<in> set (users db)" "walletAddress u' = walletAddress u"
        "totalScore u' = totalScore u"
        by (blast dest: list_all2_witness)
      with valid show "isValidWalletAddress (walletAddress u') \<and> 0 \<le> totalScore u'" by simp
    qed
    then have v': "\<forall>u \<in> set (users db'). isValidWalletAddress (walletAddress u) \<and> 0 \<le> totalScore u"
      using new us by auto
    have "map walletAddress (users db') = map walletAddress (users db) @ map walletAddress new"
      by (simp add: us addr)
    moreover have "distinct (map walletAddress (users db) @ map walletAddress new)"
      using new dist by (elim disjE exE conjE) simp_all
    ultimately have d': "distinct (map walletAddress (users db'))" by simp
    have o': "\<forall>d \<in> set (scores db'). isValidWalletAddress (sc_walletAddress d) \<longrightarrow>
              sc_walletAddress d \<in> set (map walletAddress (users db'))"
      using owned sc us addr by auto
    from v' d' o' show ?thesis unfolding sv by blast
  next
    case (PostScores wfld qfld sfld dfld mfld)
    obtain db' resp where p: "postScores now db wfld qfld sfld dfld mfld = (db', resp)" by force
    then have sv: "serve now rq db = db'" by (simp add: PostScores)
    from postScores_effect[OF p] have
      sc: "scores db' = scores db \<or>
          (\<exists>doc w. wfld = Some w \<and> scores db' = scores db @ [doc] \<and>
              sc_walletAddress doc = toLowerCase w \<and> getUserByWallet db w \<noteq> None \<and>
              scoreKey doc \<notin> set (map scoreKey (scores db)))"
      and rel: "list_all2 (\<lambda>u u'. walletAddress u' = walletAddress u \<and>
            (totalScore u' = totalScore u \<or>
             (\<exists>s. sfld = JNumber s \<and> 0 \<le> s \<and> s \<le> (case mfld of None \<Rightarrow> 20 | Some m \<Rightarrow> m) \<and>
                  totalScore u' = totalScore u + s))) (users db) (users db')"
      by blast+
    have addr: "map walletAddress (users db') = map walletAddress (users db)"
      using rel by (rule list_all2_same_map)
    have v': "\<forall>u' \<in> set (users db'). isValidWalletAddress (walletAddress u') \<and> 0 \<le> totalScore u'"
    proof
      fix u' assume in': "u' \<in> set (users db')"
      from list_all2_witness[OF rel in'] obtain u where u: "u \<in> set (users db)"
        and a: "walletAddress u' = walletAddress u"
        and t: "totalScore u' = totalScore u \<or>
             (\<exists>s. sfld = JNumber s \<and> 0 \<le> s \<and> s \<le> (case mfld of None \<Rightarrow> 20 | Some m \<Rightarrow> m) \<and>
                  totalScore u' = totalScore u + s)"
        by blast
      from valid u have vu: "isValidWalletAddress (walletAddress u)" and nu: "0 \<le> totalScore u"
        by blast+
      from t nu have "0 \<le> totalScore u'" by (elim disjE exE conjE) simp_all
      with vu a show "isValidWalletAddress (walletAddress u') \<and> 0 \<le> totalScore u'" by simp
    qed
    have d': "distinct (map walletAddress (users db'))" using dist by (simp only: addr)
    have o': "\<forall>d \<in> set (scores db'). isValidWalletAddress (sc_walletAddress d) \<longrightarrow>
              sc_walletAddress d \<in> set (map walletAddress (users db'))"
    proof (intro ballI impI)
      fix d assume d: "d \<in> set (scores db')" and vd: "isValidWalletAddress (sc_walletAddress d)"
      show "sc_walletAddress d \<in> set (map walletAddress (users db'))"
      proof (cases "d \<in> set (scores db)")
        case True
        with owned vd have "sc_walletAddress d \<in> set (map walletAddress (users db))" by blast
        then show ?thesis by (simp only: addr)
      next
        case False
        with d have "scores db' \<noteq> scores db" by auto
        with sc obtain doc w where sd: "scores db' = scores db @ [doc]"
          and k: "sc_walletAddress doc = toLowerCase w" and g: "getUserByWallet db w \<noteq> None"
          by blast
        from d False sd have "d = doc" by simp
        with k have dk: "sc_walletAddress d = toLowerCase w" by simp
        with vd have tr: "trim (toLowerCase w) = toLowerCase w" by (simp add: trim_valid)
        from g have "trim (toLowerCase w) \<in> set (map walletAddress (users db))"
          by (simp only: getUserByWallet_Some_iff)
        then have "toLowerCase w \<in> set (map walletAddress (users db))"
          by (simp only: tr)
        then show ?thesis by (simp only: addr dk)
      qed
    qed
    from v' d' o' show ?thesis unfolding sv by blast
  qed
qed

subsection \<open>Registration and the total score\<close>

lemma reachable_aliceDb: "reachable aliceDb"
proof -
  have "reachable (serve 1 (PostUsers (Some alice) (Some ''Alice'') None) emptyDb)"
    by (rule reachable_serve[OF reachable_empty])
  then show ?thesis by (simp only: serve.simps postUsers_alice fst_conv)
qed

lemma createUser_registered:
  "createUser 5 aliceDb alice ''Alice B'' (Some ''ipfs://picture'') =
     (aliceDb, Inl (Exn None ''USER_ALREADY_EXISTS''))"
  by code_simp

lemma createUser_short_name:
  "createUser 5 aliceDb alice ''ab'' None = (aliceDb, Inl (Exn None ''INVALID_USERNAME_LENGTH''))"
  by code_simp

lemma getUser_alice: "getUserByWallet aliceDb alice = Some aliceUser"
  by code_simp

lemma trim_lower_alice: "trim (toLowerCase alice) = lowerAlice"
  by code_simp

text \<open>
  Claim C8, as amended. \<open>createUser\<close> on an identifier that is already registered always
  fails and leaves the store as it was: with \<^verbatim>\<open>USER_ALREADY_EXISTS\<close> when the trimmed name
  has 3 to 30 characters, whatever the other fields are, and with
  \<^verbatim>\<open>INVALID_USERNAME_LENGTH\<close> otherwise, since the name is checked before the insertion.
\<close>

theorem createParticipant_registered:
  assumes "reachable db"
    and "trim (toLowerCase w) \<in> set (map walletAddress (users db))"
  shows "createUser now db w name pic =
           (db, Inl (Exn None (if length (trim name) < 3 \<or> 30 < length (trim name)
                               then ''INVALID_USERNAME_LENGTH'' else ''USER_ALREADY_EXISTS'')))"
proof -
  from reachable_invariant[OF assms(1)] assms(2)
  have v: "isValidWalletAddress (trim (toLowerCase w))" by auto
  show ?thesis
    using v assms(2) unfolding createUser_def users_insertOne_def
    by (simp add: Let_def)
qed

text \<open>A second registration of the example participant, with another name and a picture.\<close>

theorem createParticipant_registered_witness:
  "reachable aliceDb \<and> trim (toLowerCase alice) \<in> set (map walletAddress (users aliceDb)) \<and>
   createUser 5 aliceDb alice ''Alice B'' (Some ''ipfs://picture'') =
     (aliceDb, Inl (Exn None ''USER_ALREADY_EXISTS''))"
proof -
  have m: "trim (toLowerCase alice) \<in> set (map walletAddress (users aliceDb))"
    by (simp add: trim_lower_alice aliceDb_def aliceUser_def)
  from createParticipant_registered[OF reachable_aliceDb m, of 5 "''Alice B''" "Some ''ipfs://picture''"]
  have "createUser 5 aliceDb alice ''Alice B'' (Some ''ipfs://picture'') =
     (aliceDb, Inl (Exn None ''USER_ALREADY_EXISTS''))"
    by (simp add: createUser_registered)
  with reachable_aliceDb m show ?thesis by simp
qed

text \<open>
  As stated the claim fails: with a name of two characters the registered identifier is
  refused for the length of the name, not as already existing.
\<close>

theorem createParticipant_registered_counterexample:
  "getUserByWallet aliceDb alice = Some aliceUser \<and>
   createUser 5 aliceDb alice ''ab'' None = (aliceDb, Inl (Exn None ''INVALID_USERNAME_LENGTH'')) \<and>
   Exn None ''INVALID_USERNAME_LENGTH'' \<noteq> Exn None ''USER_ALREADY_EXISTS''"
  by (simp add: getUser_alice createUser_short_name)

text \<open>
  Claim C6. In every reachable state every participant's total score is at least 0. No
  request decreases it: after a request the participants of the state before are still
  there, in the same order and under the same identifiers, each with a total that is at
  least the old one; a total changes only in \<^verbatim>\<open>POST /api/scores\<close>, by the addition of the
  raw score of the request, which has passed the check \<open>0 \<le> s \<le> maxScore\<close>; and a
  participant the request creates starts with the total 0.
\<close>

theorem totalScore_never_decreases:
  assumes "reachable db"
  shows "(\<forall>u \<in> set (users db). 0 \<le> totalScore u) \<and>
         (\<exists>kept new. users (serve now rq db) = kept @ new \<and>
            list_all2 (\<lambda>u u'. walletAddress u' = walletAddress u \<and> totalScore u \<le> totalScore u' \<and>
               (totalScore u' \<noteq> totalScore u \<longrightarrow>
                  (\<exists>w q s d m. rq = PostScores w q (JNumber s) d m \<and> 0 \<le> s \<and>
                     s \<le> (case m of None \<Rightarrow> 20 | Some x \<Rightarrow> x) \<and>
                     totalScore u' = totalScore u + s)))
              (users db) kept \<and>
            (\<forall>u \<in> set new. totalScore u = 0))"
proof
  from reachable_invariant[OF assms] show "\<forall>u \<in> set (users db). 0 \<le> totalScore u" by blast
next
  let ?R = "\<lambda>u u'. walletAddress u' = walletAddress u \<and> totalScore u \<le> totalScore u' \<and>
               (totalScore u' \<noteq> totalScore u \<longrightarrow>
                  (\<exists>w q s d m. rq = PostScores w q (JNumber s) d m \<and> 0 \<le> s \<and>
                     s \<le> (case m of None \<Rightarrow> 20 | Some x \<Rightarrow> x) \<and>
                     totalScore u' = totalScore u + s))"
  show "\<exists>kept new. users (serve now rq db) = kept @ new \<and> list_all2 ?R (users db) kept \<and>
            (\<forall>u \<in> set new. totalScore u = 0)"
  proof (cases rq)
    case (PostUsers wfld nfld pic)
    obtain db' resp where p: "postUsers now db wfld nfld pic = (db', resp)" by force
    then have sv: "serve now rq db = db'" by (simp add: PostUsers)
    from postUsers_effect[OF p] obtain kept new where
      us: "users db' = kept @ new"
      and rel: "list_all2 (\<lambda>u u'. walletAddress u' = walletAddress u \<and> totalScore u' = totalScore u)
              (users db) kept"
      and new: "new = [] \<or>
             (\<exists>u. new = [u] \<and> totalScore u = 0 \<and> isValidWalletAddress (walletAddress u) \<and>
                  walletAddress u \<notin> set (map walletAddress (users db)))"
      by blast
    from rel have "list_all2 ?R (users db) kept"
      by (rule list_all2_mono) simp
    moreover from new have "\<forall>u \<in> set new. totalScore u = 0"
      by (elim disjE exE conjE) simp_all
    ultimately show ?thesis using us unfolding sv by blast
  next
    case (PostScores wfld qfld sfld dfld mfld)
    obtain db' resp where p: "postScores now db wfld qfld sfld dfld mfld = (db', resp)" by force
    then have sv: "serve now rq db = db'" by (simp add: PostScores)
    from postScores_effect[OF p] have
      rel: "list_all2 (\<lambda>u u'. walletAddress u' = walletAddress u \<and>
            (totalScore u' = totalScore u \<or>
             (\<exists>s. sfld = JNumber s \<and> 0 \<le> s \<and> s \<le> (case mfld of None \<Rightarrow> 20 | Some m \<Rightarrow> m) \<and>
                  totalScore u' = totalScore u + s))) (users db) (users db')"
      by blast
    have "list_all2 ?R (users db) (users db')"
      using rel
    proof (rule list_all2_mono)
      fix u u'
      assume "walletAddress u' = walletAddress u \<and>
            (totalScore u' = totalScore u \<or>
             (\<exists>s. sfld = JNumber s \<and> 0 \<le> s \<and> s \<le> (case mfld of None \<Rightarrow> 20 | Some m \<Rightarrow> m) \<and>
                  totalScore u' = totalScore u + s))"
      then have a: "walletAddress u' = walletAddress u"
        and t: "totalScore u' = totalScore u \<or>
             (\<exists>s. sfld = JNumber s \<and> 0 \<le> s \<and> s \<le> (case mfld of None \<Rightarrow> 20 | Some m \<Rightarrow> m) \<and>
                  totalScore u' = totalScore u + s)"
        by blast+
      from t show "?R u u'"
      proof
        assume "totalScore u' = totalScore u"
        with a show ?thesis by simp
      next
        assume "\<exists>s. sfld = JNumber s \<and> 0 \<le> s \<and> s \<le> (case mfld of None \<Rightarrow> 20 | Some m \<Rightarrow> m) \<and>
                  totalScore u' = totalScore u + s"
        then obtain s where s: "sfld = JNumber s" "0 \<le> s"
          "s \<le> (case mfld of None \<Rightarrow> 20 | Some m \<Rightarrow> m)" "totalScore u' = totalScore u + s"
          by blast
        then have "rq = PostScores wfld qfld (JNumber s) dfld mfld" by (simp add: PostScores)
        with s a show ?thesis by auto
      qed
    qed
    then show ?thesis unfolding sv
      by (intro exI[of _ "users db'"] exI[of _ "[]"]) simp
  qed
qed

text \<open>The example participant before and after the submission of 18 points.\<close>

theorem totalScore_never_decreases_witness:
  "reachable aliceDb \<and> 0 \<le> totalScore aliceUser \<and>
   users (serve 2 (PostScores (Some alice) (Some ''q1'') (JNumber 18) (Some ''Medium'') (Some 20))
            aliceDb) = [aliceUser\<lparr>totalScore := 18, updatedAt := 2\<rparr>] \<and>
   totalScore aliceUser \<le> totalScore (aliceUser\<lparr>totalScore := 18, updatedAt := 2\<rparr>)"
proof -
  from totalScore_never_decreases[OF reachable_aliceDb, of 2
      "PostScores (Some alice) (Some ''q1'') (JNumber 18) (Some ''Medium'') (Some 20)"]
  have "\<forall>u \<in> set (users aliceDb). 0 \<le> totalScore u" by blast
  then have "0 \<le> totalScore aliceUser" by (simp add: aliceDb_def)
  with reachable_aliceDb show ?thesis by (simp add: submit_q1 aliceUser_def)
qed

subsection \<open>Duplicate attempts\<close>

lemma includes_already_completed:
  "str_includes ''Quiz already completed by this user'' ''already completed''"
  by code_simp

lemma postScores_invalid:
  assumes "\<not> passesValidation wfld qfld sfld dfld mfld"
  shows "\<exists>why. postScores now db wfld qfld sfld dfld mfld = (db, BadRequest400 why)"
  using assms unfolding postScores_def passesValidation_def
  by (auto simp: Let_def split: option.splits jsval.splits)

lemma postScores_valid:
  assumes "postScores now db wfld qfld sfld dfld mfld = (db', Created201 r)"
  shows "passesValidation wfld qfld sfld dfld mfld"
proof (rule ccontr)
  assume "\<not> passesValidation wfld qfld sfld dfld mfld"
  from postScores_invalid[OF this, of now db] assms show False by auto
qed

lemma postScores_duplicate:
  assumes "passesValidation (Some w) (Some q) sfld dfld mfld"
    and "getUserByWallet db w \<noteq> None"
    and "(toLowerCase w, q) \<in> set (map scoreKey (scores db))"
  shows "postScores now db (Some w) (Some q) sfld dfld mfld = (db, Conflict409)"
proof -
  from assms(1) obtain s d where f: "sfld = JNumber s" "dfld = Some d" "w \<noteq> []" "q \<noteq> []" "d \<noteq> []"
    "0 \<le> s" "s \<le> (case mfld of None \<Rightarrow> 20 | Some m \<Rightarrow> m)" "toLowerCase d \<in> set validDifficulties"
    unfolding passesValidation_def by (auto split: jsval.splits option.splits)
  from assms(2) obtain u where u: "getUserByWallet db w = Some u" by auto
  have c: "createScore now db w q s (toLowerCase d) (case mfld of None \<Rightarrow> 20 | Some m \<Rightarrow> m) =
             (db, Inl (Exn None ''Quiz already completed by this user''))"
    using assms(3) unfolding createScore_def scores_insertOne_def
    by (simp add: Let_def scoreKey_def)
  show ?thesis
    unfolding postScores_def
    using f u c by (simp add: Let_def catchResponse_def includes_already_completed)
qed

lemma serve_grows:
  "set (map walletAddress (users db)) \<subseteq> set (map walletAddress (users (serve now rq db))) \<and>
   set (map scoreKey (scores db)) \<subseteq> set (map scoreKey (scores (serve now rq db)))"
proof (cases rq)
  case (PostUsers wfld nfld pic)
  obtain db' resp where p: "postUsers now db wfld nfld pic = (db', resp)" by force
  then have sv: "serve now rq db = db'" by (simp add: PostUsers)
  from postUsers_effect[OF p] obtain kept new where
    sc: "scores db' = scores db" and us: "users db' = kept @ new"
    and rel: "list_all2 (\<lambda>u u'. walletAddress u' = walletAddress u \<and> totalScore u' = totalScore u)
              (users db) kept"
    by blast
  have "map walletAddress kept = map walletAddress (users db)"
    using rel by (rule list_all2_same_map)
  then have "map walletAddress (users db') = map walletAddress (users db) @ map walletAddress new"
    by (simp add: us)
  with sc show ?thesis unfolding sv by simp
next
  case (PostScores wfld qfld sfld dfld mfld)
  obtain db' resp where p: "postScores now db wfld qfld sfld dfld mfld = (db', resp)" by force
  then have sv: "serve now rq db = db'" by (simp add: PostScores)
  from postScores_effect[OF p] have
    sc: "scores db' = scores db \<or>
          (\<exists>doc w. wfld = Some w \<and> scores db' = scores db @ [doc] \<and>
              sc_walletAddress doc = toLowerCase w \<and> getUserByWallet db w \<noteq> None \<and>
              scoreKey doc \<notin> set (map scoreKey (scores db)))"
    and rel: "list_all2 (\<lambda>u u'. walletAddress u' = walletAddress u \<and>
            (totalScore u' = totalScore u \<or>
             (\<exists>s. sfld = JNumber s \<and> 0 \<le> s \<and> s \<le> (case mfld of None \<Rightarrow> 20 | Some m \<Rightarrow> m) \<and>
                  totalScore u' = totalScore u + s))) (users db) (users db')"
    by blast+
  have a: "map walletAddress (users db') = map walletAddress (users db)"
    using rel by (rule list_all2_same_map)
  from sc have "set (map scoreKey (scores db)) \<subseteq> set (map scoreKey (scores db'))"
    by (elim disjE exE conjE) auto
  with a show ?thesis unfolding sv by simp
qed

lemma serveAll_grows:
  "set (map walletAddress (users db)) \<subseteq> set (map walletAddress (users (serveAll steps db))) \<and>
   set (map scoreKey (scores db)) \<subseteq> set (map scoreKey (scores (serveAll steps db)))"
proof (induction steps arbitrary: db)
  case Nil
  show ?case by simp
next
  case (Cons step rest)
  from serve_grows[of db "fst step" "snd step"] Cons.IH[of "serve (fst step) (snd step) db"]
  show ?case by (simp only: serveAll.simps) blast
qed

text \<open>
  Claim C2. After a successful \<^verbatim>\<open>POST /api/scores\<close> for an identifier and a quiz, and after
  any further requests, the same submission again is answered 409 (the duplicate attempt),
  and so is every submission with the same identifier and quiz whose other fields pass the
  validation; a submission with the same identifier and quiz never succeeds and never
  changes the store, so the total score stays what it was.
\<close>

theorem duplicate_attempt_conflict:
  assumes "postScores t1 db0 wfld qfld sfld1 dfld1 mfld1 = (db1, Created201 r1)"
    and "db2 = serveAll between db1"
  shows "postScores t2 db2 wfld qfld sfld1 dfld1 mfld1 = (db2, Conflict409) \<and>
         (passesValidation wfld qfld sfld2 dfld2 mfld2 \<longrightarrow>
            postScores t2 db2 wfld qfld sfld2 dfld2 mfld2 = (db2, Conflict409)) \<and>
         fst (postScores t2 db2 wfld qfld sfld2 dfld2 mfld2) = db2 \<and>
         \<not> isCreated (snd (postScores t2 db2 wfld qfld sfld2 dfld2 mfld2))"
proof -
  from assms(1) obtain w q d s existingUser dbm doc u' where
    f: "wfld = Some w" "qfld = Some q"
    and g: "getUserByWallet db0 w = Some existingUser"
    and c: "createScore t1 db0 w q s (toLowerCase d) (case mfld1 of None \<Rightarrow> 20 | Some m \<Rightarrow> m) = (dbm, Inr doc)"
    and u: "updateUserTotalScore t1 dbm w s = (db1, Some u')"
    by (rule postScores_Created)
  note cs = createScore_Inr[OF c]
  have k1: "(toLowerCase w, q) \<in> set (map scoreKey (scores db1))"
    using updateUserTotalScore_scores[OF u] cs(1,2) by (simp add: scoreKey_def)
  have "trim (toLowerCase w) \<in> set (map walletAddress (users db0))"
    using g getUserByWallet_Some_iff[of db0 w] by simp
  moreover have "map walletAddress (users db1) = map walletAddress (users db0)"
    using list_all2_same_map[OF updateUserTotalScore_users[OF u]] cs(2) by simp
  ultimately have a1: "trim (toLowerCase w) \<in> set (map walletAddress (users db1))" by simp
  from serveAll_grows[of db1 between] k1 a1
  have k2: "(toLowerCase w, q) \<in> set (map scoreKey (scores db2))"
    and a2: "trim (toLowerCase w) \<in> set (map walletAddress (users db2))"
    unfolding assms(2) by blast+
  from a2 have g2: "getUserByWallet db2 w \<noteq> None" by (simp only: getUserByWallet_Some_iff)
  have dup: "postScores t2 db2 wfld qfld sf df mf = (db2, Conflict409)"
    if "passesValidation wfld qfld sf df mf" for sf df mf
    using postScores_duplicate[OF _ g2 k2] that unfolding f by blast
  have first: "postScores t2 db2 wfld qfld sfld1 dfld1 mfld1 = (db2, Conflict409)"
    by (rule dup) (rule postScores_valid[OF assms(1)])
  have "postScores t2 db2 wfld qfld sfld2 dfld2 mfld2 = (db2, Conflict409) \<or>
        (\<exists>why. postScores t2 db2 wfld qfld sfld2 dfld2 mfld2 = (db2, BadRequest400 why))"
    using dup[of sfld2 dfld2 mfld2] postScores_invalid[of wfld qfld sfld2 dfld2 mfld2 t2 db2]
    by blast
  then have "fst (postScores t2 db2 wfld qfld sfld2 dfld2 mfld2) = db2 \<and>
         \<not> isCreated (snd (postScores t2 db2 wfld qfld sfld2 dfld2 mfld2))"
    by (elim disjE exE) simp_all
  with first dup show ?thesis by blast
qed

lemma submit_q1_again:
  "postScores 4
     \<lparr>users = [aliceUser\<lparr>totalScore := 18, updatedAt := 2\<rparr>],
       scores = [\<lparr>sc_walletAddress = lowerAlice, quizId = ''q1'', score = 18,
                  difficulty = ''medium'', maxScore = 20, percentage = Num 90,
                  sc_createdAt = 2\<rparr>]\<rparr>
     (Some alice) (Some ''q1'') (JNumber 18) (Some ''Medium'') (Some 20) =
   (\<lparr>users = [aliceUser\<lparr>totalScore := 18, updatedAt := 2\<rparr>],
       scores = [\<lparr>sc_walletAddress = lowerAlice, quizId = ''q1'', score = 18,
                  difficulty = ''medium'', maxScore = 20, percentage = Num 90,
                  sc_createdAt = 2\<rparr>]\<rparr>, Conflict409)"
  by code_simp

text \<open>The submission of 18 points for the quiz \<^verbatim>\<open>q1\<close>, and the same submission again.\<close>

theorem duplicate_attempt_conflict_witness:
  "postScores 2 aliceDb (Some alice) (Some ''q1'') (JNumber 18) (Some ''Medium'') (Some 20) =
     (\<lparr>users = [aliceUser\<lparr>totalScore := 18, updatedAt := 2\<rparr>],
       scores = [\<lparr>sc_walletAddress = lowerAlice, quizId = ''q1'', score = 18,
                  difficulty = ''medium'', maxScore = 20, percentage = Num 90,
                  sc_createdAt = 2\<rparr>]\<rparr>,
      Created201 \<lparr>rs_score = 18, rs_maxScore = 20, rs_percentage = Num 90,
                  rs_difficulty = ''medium'', newTotalScore = 18, eligibleForReward = True,
                  submittedAt = 2\<rparr>) \<and>
   postScores 4
     \<lparr>users = [aliceUser\<lparr>totalScore := 18, updatedAt := 2\<rparr>],
       scores = [\<lparr>sc_walletAddress = lowerAlice, quizId = ''q1'', score = 18,
                  difficulty = ''medium'', maxScore = 20, percentage = Num 90,
                  sc_createdAt = 2\<rparr>]\<rparr>
     (Some alice) (Some ''q1'') (JNumber 18) (Some ''Medium'') (Some 20) =
   (\<lparr>users = [aliceUser\<lparr>totalScore := 18, updatedAt := 2\<rparr>],
       scores = [\<lparr>sc_walletAddress = lowerAlice, quizId = ''q1'', score = 18,
                  difficulty = ''medium'', maxScore = 20, percentage = Num 90,
                  sc_createdAt = 2\<rparr>]\<rparr>, Conflict409)"
proof -
  have e: "\<lparr>users = [aliceUser\<lparr>totalScore := 18, updatedAt := 2\<rparr>],
       scores = [\<lparr>sc_walletAddress = lowerAlice, quizId = ''q1'', score = 18,
                  difficulty = ''medium'', maxScore = 20, percentage = Num 90,
                  sc_createdAt = 2\<rparr>]\<rparr> =
      serveAll [] \<lparr>users = [aliceUser\<lparr>totalScore := 18, updatedAt := 2\<rparr>],
       scores = [\<lparr>sc_walletAddress = lowerAlice, quizId = ''q1'', score = 18,
                  difficulty = ''medium'', maxScore = 20, percentage = Num 90,
                  sc_createdAt = 2\<rparr>]\<rparr>"
    by simp
  from duplicate_attempt_conflict[OF submit_q1 e, of 4 JUndefined None None]
  show ?thesis using submit_q1 by blast
qed

subsection \<open>The total score and the ledger\<close>

lemma find_findOneAndUpdate:
  assumes "\<And>u. P (f u) = P u"
  shows "find P (fst (findOneAndUpdate P f us)) = map_option f (find P us)"
  by (induction us) (auto simp: assms split: prod.splits)








lemma getUser_aliceDb2:
  "getUserByWallet aliceDb2 alice = Some (aliceUser\<lparr>totalScore := 28, updatedAt := 3\<rparr>)"
  by code_simp


subsection \<open>Concurrent accrual\<close>

lemma totalOf_findOneAndUpdate_other:
  assumes "\<And>u. walletAddress (f u) = walletAddress u" and "\<And>u. P u \<Longrightarrow> walletAddress u \<noteq> a"
  shows "find (\<lambda>x. walletAddress x = a) (fst (findOneAndUpdate P f us)) =
         find (\<lambda>x. walletAddress x = a) us"
  by (induction us) (auto simp: assms split: prod.splits)

lemma updateUserTotalScore_totalOf:
  assumes "updateUserTotalScore now db w s = (db', r)"
  shows "totalOf db' (toLowerCase w) =
           map_option (\<lambda>t. t + (if r = None then 0 else s)) (totalOf db (toLowerCase w))"
proof -
  let ?P = "\<lambda>u. walletAddress u = toLowerCase w"
  let ?f = "\<lambda>u. u\<lparr>totalScore := totalScore u + s, updatedAt := now\<rparr>"
  from assms have us: "users db' = fst (findOneAndUpdate ?P ?f (users db))"
    and r: "r = snd (findOneAndUpdate ?P ?f (users db))"
    by (auto simp: updateUserTotalScore_def split: prod.splits)
  have f: "find ?P (users db') = map_option ?f (find ?P (users db))"
    by (simp add: us find_findOneAndUpdate)
  show ?thesis
  proof (cases "find ?P (users db)")
    case None
    with f show ?thesis by (simp add: totalOf_def)
  next
    case (Some u)
    with r have "r \<noteq> None" by (simp add: findOneAndUpdate_result)
    with f Some show ?thesis by (auto simp: totalOf_def)
  qed
qed

lemma mongoStep_total:
  assumes "mongoStep now sb st db = (st', db')"
  shows "totalOf db' (toLowerCase (sub_walletAddress sb)) =
           map_option (\<lambda>t. t + (accrued sb st' - accrued sb st))
             (totalOf db (toLowerCase (sub_walletAddress sb)))"
proof (cases st)
  case AtGetUser
  with assms have "db' = db" "accrued sb st' = 0"
    by (auto split: option.splits)
  then show ?thesis by (simp add: AtGetUser option.map_ident)
next
  case AtCreateScore
  obtain db1 r where c: "createScore now db (sub_walletAddress sb) (sub_quizId sb) (sub_score sb)
             (sub_difficulty sb) (sub_maxScore sb) = (db1, r)" by force
  have "users db' = users db \<and> accrued sb st' = 0"
  proof (cases r)
    case (Inl e)
    with c have ce: "createScore now db (sub_walletAddress sb) (sub_quizId sb) (sub_score sb)
             (sub_difficulty sb) (sub_maxScore sb) = (db1, Inl e)" by simp
    then have "db1 = db" by (rule createScore_Inl(1))
    moreover from assms AtCreateScore ce
    have "db' = db1" "st' = Finished (catchResponse ''already completed'' e)" by simp_all
    ultimately show ?thesis by (simp add: catchResponse_def)
  next
    case (Inr doc)
    with c have ce: "createScore now db (sub_walletAddress sb) (sub_quizId sb) (sub_score sb)
             (sub_difficulty sb) (sub_maxScore sb) = (db1, Inr doc)" by simp
    then have "db1 = db\<lparr>scores := scores db @ [doc]\<rparr>" by (rule createScore_Inr(2))
    moreover from assms AtCreateScore ce
    have "db' = db1" "st' = AtUpdateTotal doc" by simp_all
    ultimately show ?thesis by simp
  qed
  then show ?thesis by (simp add: AtCreateScore totalOf_def option.map_ident)
next
  case (AtUpdateTotal doc)
  obtain db2 r where u: "updateUserTotalScore now db (sub_walletAddress sb) (sub_score sb) = (db2, r)"
    by force
  from assms AtUpdateTotal u have "db' = db2"
    and "accrued sb st' = (if r = None then 0 else sub_score sb)"
    by (auto split: option.splits)
  with updateUserTotalScore_totalOf[OF u] show ?thesis by (simp add: AtUpdateTotal)
next
  case (Finished r)
  with assms have "db' = db" "st' = st" by simp_all
  then show ?thesis by (simp add: option.map_ident)
qed

text \<open>
  The three steps of a task, taken without interruption, are the handler on a request that
  has passed the validation.
\<close>

lemma mongo_three_steps:
  assumes "passesValidation (Some w) (Some q) (JNumber s) (Some d) m"
    and "sb = \<lparr>sub_walletAddress = w, sub_quizId = q, sub_score = s,
               sub_difficulty = toLowerCase d,
               sub_maxScore = (case m of None \<Rightarrow> 20 | Some x \<Rightarrow> x)\<rparr>"
  shows "(case mongoStep now sb AtGetUser db of
            (st1, db1) \<Rightarrow>
              (case mongoStep now sb st1 db1 of
                 (st2, db2) \<Rightarrow>
                   (case mongoStep now sb st2 db2 of (st3, db3) \<Rightarrow> (db3, st3)))) =
         (case postScores now db (Some w) (Some q) (JNumber s) (Some d) m of
            (db', resp) \<Rightarrow> (db', Finished resp))"
  using assms(1) unfolding postScores_def passesValidation_def assms(2)
  by (auto simp: Let_def split: option.splits prod.splits sum.splits)

lemma interleave_mongo_total:
  assumes "interleave (mongoStep now) a b sched (sa, sb, db) = (sa', sb', db')"
    and "toLowerCase (sub_walletAddress a) = addr" and "toLowerCase (sub_walletAddress b) = addr"
  shows "totalOf db' addr =
           map_option (\<lambda>t. t + (accrued a sa' - accrued a sa) + (accrued b sb' - accrued b sb))
             (totalOf db addr)"
  using assms(1)
proof (induction sched arbitrary: sa sb db)
  case Nil
  then show ?case by (simp add: option.map_ident)
next
  case (Cons first sched)
  show ?case
  proof (cases first)
    case True
    obtain sa1 db1 where s: "mongoStep now a sa db = (sa1, db1)" by force
    with Cons.prems True have "interleave (mongoStep now) a b sched (sa1, sb, db1) = (sa', sb', db')"
      by simp
    from Cons.IH[OF this] mongoStep_total[OF s] assms(2)
    show ?thesis by (cases "totalOf db addr") (simp_all add: algebra_simps)
  next
    case False
    obtain sb1 db1 where s: "mongoStep now b sb db = (sb1, db1)" by force
    with Cons.prems False have "interleave (mongoStep now) a b sched (sa, sb1, db1) = (sa', sb', db')"
      by simp
    from Cons.IH[OF this] mongoStep_total[OF s] assms(3)
    show ?thesis by (cases "totalOf db addr") (simp_all add: algebra_simps)
  qed
qed

text \<open>
  The MongoDB revision: whatever the schedule, when two submissions of one participant have
  both answered 201, the total has grown by both raw scores.
\<close>

lemma mongo_no_lost_update:
  assumes "interleave (mongoStep now) a b sched (AtGetUser, AtGetUser, db) =
             (Finished (Created201 ra), Finished (Created201 rb), db')"
    and "toLowerCase (sub_walletAddress a) = addr" and "toLowerCase (sub_walletAddress b) = addr"
  shows "totalOf db' addr = map_option (\<lambda>t. t + sub_score a + sub_score b) (totalOf db addr)"
  using interleave_mongo_total[OF assms] by simp

lemma mongo_interleaved_example:
  "interleave (mongoStep 2) subQ1 subQ2 [True, False, True, False, True, False]
     (AtGetUser, AtGetUser, aliceDb) =
   (Finished (Created201 \<lparr>rs_score = 10, rs_maxScore = 20, rs_percentage = Num 50,
                          rs_difficulty = ''easy'', newTotalScore = 10, eligibleForReward = False,
                          submittedAt = 2\<rparr>),
    Finished (Created201 \<lparr>rs_score = 5, rs_maxScore = 20, rs_percentage = Num 25,
                          rs_difficulty = ''easy'', newTotalScore = 15, eligibleForReward = False,
                          submittedAt = 2\<rparr>),
    \<lparr>users = [aliceUser\<lparr>totalScore := 15, updatedAt := 2\<rparr>],
      scores = [\<lparr>sc_walletAddress = lowerAlice, quizId = ''q1'', score = 10, difficulty = ''easy'',
                 maxScore = 20, percentage = Num 50, sc_createdAt = 2\<rparr>,
                \<lparr>sc_walletAddress = lowerAlice, quizId = ''q2'', score = 5, difficulty = ''easy'',
                 maxScore = 20, percentage = Num 25, sc_createdAt = 2\<rparr>]\<rparr>)"
  by code_simp

text \<open>
  Claim C5 on the SQLite revision. Two submissions of one participant on two quizzes, raw
  scores 10 and 5, total 0 before; the callbacks run in the order select, select, insert,
  insert, update, update. Both requests are answered 201 and both attempts are in the
  ledger, but the total is 5: the second update writes the total it read before the first
  update, plus 5. Served one after the other the same submissions give the total 15.
\<close>

theorem sqlite_lost_update:
  "interleave sqliteStep subQ1 subQ2 [True, False, True, False, True, False]
     (SqSelectUser, SqSelectUser, sqlAliceDb) =
   (SqFinished (Created201 \<lparr>sr_score = 10, sr_maxScore = 20, sr_percentage = Num 50,
                            sr_newTotalScore = 10, sr_difficulty = ''easy'',
                            eligible_for_reward = False\<rparr>),
    SqFinished (Created201 \<lparr>sr_score = 5, sr_maxScore = 20, sr_percentage = Num 25,
                            sr_newTotalScore = 5, sr_difficulty = ''easy'',
                            eligible_for_reward = False\<rparr>),
    \<lparr>sq_users = [\<lparr>wallet_address = lowerAlice, sq_username = ''Alice'', profile_picture = None,
                   total_score = 5, sq_level = ''beginner''\<rparr>],
      sq_scores = [\<lparr>sq_wallet_address = lowerAlice, quiz_id = ''q1'', sq_score = 10,
                    sq_difficulty = ''easy'', max_score = 20, sq_percentage = Num 50\<rparr>,
                   \<lparr>sq_wallet_address = lowerAlice, quiz_id = ''q2'', sq_score = 5,
                    sq_difficulty = ''easy'', max_score = 20, sq_percentage = Num 25\<rparr>]\<rparr>) \<and>
   map total_score
     (sq_users (snd (snd (interleave sqliteStep subQ1 subQ2 [True, True, True, False, False, False]
                            (SqSelectUser, SqSelectUser, sqlAliceDb))))) = [15]"
  by code_simp

end
